theory Spec2Isabelle
  imports Main "HOL-Library.Char_ord" "HOL-Library.List_Lexorder"
begin

section \<open>The library schema: rows, tables and errors\<close>

text \<open>
  The business rules of the repository live in the PL/pgSQL functions, triggers and
  constraints that \<^verbatim>\<open>database/tables/*.py\<close> install, and in the SQL statements the
  Python managers and repositories issue. A SQL statement is modelled as a function from
  the database to either an error (the exception PostgreSQL raises, which undoes the whole
  statement) or the database after the statement. Dates are day numbers, so
  \<^verbatim>\<open>date + 14\<close> is integer addition; \<^verbatim>\<open>CURRENT_DATE\<close> and Python's
  \<^verbatim>\<open>date.today()\<close> are the parameter \<open>today\<close>. Values a \<^verbatim>\<open>SERIAL\<close> column
  draws from its sequence are parameters of the insert.

  Columns that no rule reads (titles, names, notes, \<^verbatim>\<open>created_at\<close>) are left out of
  the rows. Every table has an \<^verbatim>\<open>updated_at\<close> column that a \<^verbatim>\<open>BEFORE UPDATE\<close>
  trigger sets to \<^verbatim>\<open>CURRENT_TIMESTAMP\<close>. The one of \<^verbatim>\<open>shelves\<close> is part of the
  rows below, since the shelf ledger is specified by the fields a call writes; those of
  \<^verbatim>\<open>books\<close>, \<^verbatim>\<open>students\<close> and \<^verbatim>\<open>loans\<close> are left out. Timestamps are
  numbers, and the value \<^verbatim>\<open>CURRENT_TIMESTAMP\<close> has for the statement that runs is
  carried with the database, as \<open>current_timestamp\<close>.
\<close>

datatype book_type = Physical | Digital

datatype book_status = Available | Loaned | Maintenance | BookLost

datatype student_status = StudentActive | StudentInactive | StudentGraduated

datatype loan_status = Active | Returned | Overdue | LoanLost

record shelf =
  shelf_id :: int
  location_code :: string
  total_capacity :: int
  current_book_count :: int
  updated_at :: int

record book =
  book_id :: int
  book_type :: book_type
  book_shelf_id :: "int option"
  status :: book_status

record student =
  student_id :: int
  student_status :: student_status

record loan =
  loan_id :: int
  loan_book_id :: int
  loan_student_id :: int
  loan_date :: int
  estimated_return_date :: int
  actual_return_date :: "int option"
  loan_status :: loan_status
  renewal_count :: int

record db =
  shelves :: "shelf list"
  books :: "book list"
  students :: "student list"
  loans :: "loan list"
  current_timestamp :: int

text \<open>
  One constructor per \<^verbatim>\<open>RAISE EXCEPTION\<close> of the stored functions, one per kind of
  constraint violation (carrying the constraint's name), and one for each of the two errors
  PostgreSQL raises by itself while it runs a stored function:
  \<^verbatim>\<open>integer out of range\<close> and \<^verbatim>\<open>column reference "..." is ambiguous\<close>.
\<close>

datatype error =
    ShelfNotFound
  | NegativeCount
  | CapacityExceeded
  | ShelfFull
  | BookNotFound
  | BookNotAvailable
  | StudentNotFound
  | StudentNotActive
  | LoanLimitReached
  | CheckViolation string
  | UniqueViolation string
  | ForeignKeyViolation string
  | NotNullViolation string
  | IntegerOutOfRange
  | AmbiguousColumn

text \<open>The values of the type \<^verbatim>\<open>INTEGER\<close>, which is 32 bits wide.\<close>

definition int4 :: "int \<Rightarrow> bool" where
  "int4 n = (- 2147483648 \<le> n \<and> n \<le> 2147483647)"

definition ebind :: "error + 'a \<Rightarrow> ('a \<Rightarrow> error + 'b) \<Rightarrow> error + 'b" where
  "ebind m f = (case m of Inl e \<Rightarrow> Inl e | Inr x \<Rightarrow> f x)"

definition find_shelf :: "db \<Rightarrow> int \<Rightarrow> shelf option" where
  "find_shelf d sid = find (\<lambda>s. shelf_id s = sid) (shelves d)"

definition find_book :: "db \<Rightarrow> int \<Rightarrow> book option" where
  "find_book d bid = find (\<lambda>b. book_id b = bid) (books d)"

definition find_student :: "db \<Rightarrow> int \<Rightarrow> student option" where
  "find_student d sid = find (\<lambda>s. student_id s = sid) (students d)"

definition find_loan :: "db \<Rightarrow> int \<Rightarrow> loan option" where
  "find_loan d lid = find (\<lambda>l. loan_id l = lid) (loans d)"

section \<open>Shelves: \<^verbatim>\<open>shelves_table.py\<close>\<close>

text \<open>
  \<^verbatim>\<open>check_shelf_capacity(shelf_id_param)\<close>: raises when the shelf is unknown, else
  \<^verbatim>\<open>current_count < max_capacity\<close>.
\<close>

definition check_shelf_capacity :: "db \<Rightarrow> int \<Rightarrow> error + bool" where
  "check_shelf_capacity d shelf_id_param =
     (case find_shelf d shelf_id_param of
        None \<Rightarrow> Inl ShelfNotFound
      | Some s \<Rightarrow> Inr (current_book_count s < total_capacity s))"

text \<open>
  \<^verbatim>\<open>update_shelves_updated_at()\<close>, the \<^verbatim>\<open>BEFORE UPDATE\<close> row trigger of
  \<^verbatim>\<open>shelves\<close>: \<^verbatim>\<open>NEW.updated_at = CURRENT_TIMESTAMP\<close>, for every row a statement
  updates.
\<close>

definition update_shelves_updated_at :: "int \<Rightarrow> shelf \<Rightarrow> shelf" where
  "update_shelves_updated_at now new = new\<lparr>updated_at := now\<rparr>"

text \<open>
  \<^verbatim>\<open>UPDATE shelves SET current_book_count = n WHERE shelf_id = sid\<close>, run at the
  timestamp \<open>now\<close>.
\<close>

definition set_shelf_count :: "int \<Rightarrow> int \<Rightarrow> int \<Rightarrow> shelf list \<Rightarrow> shelf list" where
  "set_shelf_count now sid n ss =
     map (\<lambda>s. if shelf_id s = sid
               then update_shelves_updated_at now (s\<lparr>current_book_count := n\<rparr>) else s) ss"

text \<open>
  \<^verbatim>\<open>update_shelf_book_count(shelf_id_param, count_change)\<close>. Its first statement,
  \<^verbatim>\<open>SELECT current_book_count + count_change, total_capacity INTO new_count, max_capacity\<close>,
  adds two \<^verbatim>\<open>INTEGER\<close>s: when the row is found and the sum does not fit the type,
  the addition raises \<^verbatim>\<open>integer out of range\<close>, before any test of the function. The
  overflow is written out for rows and arguments that are \<^verbatim>\<open>INTEGER\<close> values, the
  only ones PostgreSQL stores and passes. Then come the three \<^verbatim>\<open>RAISE EXCEPTION\<close>
  tests in the order of the source, and
  \<^verbatim>\<open>UPDATE shelves SET current_book_count = new_count WHERE shelf_id = shelf_id_param\<close>.
\<close>

definition update_shelf_book_count :: "db \<Rightarrow> int \<Rightarrow> int \<Rightarrow> error + db" where
  "update_shelf_book_count d shelf_id_param count_change =
     (case find_shelf d shelf_id_param of
        None \<Rightarrow> Inl ShelfNotFound
      | Some s \<Rightarrow>
          if int4 (current_book_count s) \<and> int4 (total_capacity s) \<and> int4 count_change
             \<and> \<not> int4 (current_book_count s + count_change)
            then Inl IntegerOutOfRange
          else
            (let new_count = current_book_count s + count_change;
                 max_capacity = total_capacity s
             in if new_count < 0 then Inl NegativeCount
                else if new_count > max_capacity then Inl CapacityExceeded
                else Inr (d\<lparr>shelves := set_shelf_count (current_timestamp d) shelf_id_param
                                          new_count (shelves d)\<rparr>)))"

text \<open>
  \<^verbatim>\<open>ShelvesTableManager.update_book_count\<close>: the Python wrapper turns any exception
  into \<^verbatim>\<open>False\<close>; the failed statement has changed nothing.
\<close>

definition update_book_count :: "db \<Rightarrow> int \<Rightarrow> int \<Rightarrow> bool \<times> db" where
  "update_book_count d sid count_change =
     (case update_shelf_book_count d sid count_change of
        Inl e \<Rightarrow> (False, d)
      | Inr d' \<Rightarrow> (True, d'))"

section \<open>Books: \<^verbatim>\<open>books_table.py\<close>\<close>

text \<open>
  \<^verbatim>\<open>validate_book_shelf_placement()\<close>, the \<^verbatim>\<open>BEFORE INSERT OR UPDATE\<close> row
  trigger: a physical book with a shelf needs \<^verbatim>\<open>check_shelf_capacity(NEW.shelf_id)\<close>.
  The trigger has no column list and no \<^verbatim>\<open>WHEN\<close> clause, so it runs for every row
  update of \<^verbatim>\<open>books\<close>, whichever columns the statement sets.
\<close>

definition validate_book_shelf_placement :: "db \<Rightarrow> book \<Rightarrow> error + unit" where
  "validate_book_shelf_placement d new =
     (case book_shelf_id new of
        None \<Rightarrow> Inr ()
      | Some sid \<Rightarrow>
          if book_type new = Physical then
            ebind (check_shelf_capacity d sid)
              (\<lambda>has_capacity. if \<not> has_capacity then Inl ShelfFull else Inr ())
          else Inr ())"

text \<open>
  The row constraints of \<^verbatim>\<open>books\<close>: the two \<^verbatim>\<open>CHECK\<close>s that tie
  \<^verbatim>\<open>shelf_id\<close> to \<^verbatim>\<open>book_type\<close>, and the foreign key into \<^verbatim>\<open>shelves\<close>.
\<close>

definition book_constraints :: "db \<Rightarrow> book \<Rightarrow> error + unit" where
  "book_constraints d new =
     (if \<not> (book_type new = Digital \<or> book_shelf_id new \<noteq> None)
        then Inl (CheckViolation ''chk_physical_book_has_shelf'')
      else if \<not> (book_type new = Physical \<or> book_shelf_id new = None)
        then Inl (CheckViolation ''chk_digital_book_no_shelf'')
      else (case book_shelf_id new of
              None \<Rightarrow> Inr ()
            | Some sid \<Rightarrow>
                if find_shelf d sid = None
                  then Inl (ForeignKeyViolation ''books_shelf_id_fkey'')
                else Inr ()))"

text \<open>
  \<^verbatim>\<open>update_shelf_count_on_book_change()\<close>, the \<^verbatim>\<open>AFTER INSERT OR UPDATE OR DELETE\<close>
  row trigger. \<^verbatim>\<open>TG_OP\<close> with \<^verbatim>\<open>OLD\<close> and \<^verbatim>\<open>NEW\<close> is the event;
  \<^verbatim>\<open>IS DISTINCT FROM\<close> is inequality of the optional values. Each
  \<^verbatim>\<open>PERFORM update_shelf_book_count\<close> acts on the database the previous one left.
\<close>

datatype book_event = BookInsert book | BookUpdate book book | BookDelete book

definition adjust_if :: "bool \<Rightarrow> int option \<Rightarrow> int \<Rightarrow> db \<Rightarrow> error + db" where
  "adjust_if c sid delta d =
     (case sid of
        None \<Rightarrow> Inr d
      | Some s \<Rightarrow> if c then update_shelf_book_count d s delta else Inr d)"

fun update_shelf_count_on_book_change :: "db \<Rightarrow> book_event \<Rightarrow> error + db" where
  "update_shelf_count_on_book_change d (BookInsert new) =
     adjust_if (book_type new = Physical) (book_shelf_id new) 1 d"
| "update_shelf_count_on_book_change d (BookUpdate old new) =
     ebind (if book_shelf_id old \<noteq> book_shelf_id new \<and> book_type new = Physical then
              ebind (adjust_if True (book_shelf_id old) (- 1) d)
                (adjust_if True (book_shelf_id new) 1)
            else Inr d)
       (\<lambda>d1. if book_type old \<noteq> book_type new then
                ebind (adjust_if (book_type old = Physical) (book_shelf_id old) (- 1) d1)
                  (adjust_if (book_type new = Physical) (book_shelf_id new) 1)
              else Inr d1)"
| "update_shelf_count_on_book_change d (BookDelete old) =
     adjust_if (book_type old = Physical) (book_shelf_id old) (- 1) d"

text \<open>
  \<^verbatim>\<open>INSERT INTO books\<close> (\<^verbatim>\<open>BookRepository.create\<close>): the \<^verbatim>\<open>BEFORE\<close> trigger,
  the primary key and the row constraints, the write, the \<^verbatim>\<open>AFTER\<close> trigger.
\<close>

definition insert_book :: "db \<Rightarrow> book \<Rightarrow> error + db" where
  "insert_book d new =
     ebind (validate_book_shelf_placement d new) (\<lambda>_.
       if find_book d (book_id new) \<noteq> None then Inl (UniqueViolation ''books_pkey'')
       else ebind (book_constraints d new) (\<lambda>_.
         update_shelf_count_on_book_change (d\<lparr>books := books d @ [new]\<rparr>) (BookInsert new)))"

text \<open>
  The update of one row of \<^verbatim>\<open>books\<close> from \<open>old\<close> to \<open>new\<close> (same
  \<^verbatim>\<open>book_id\<close>: no statement of the repository sets that column).
\<close>

definition replace_book :: "book \<Rightarrow> book list \<Rightarrow> book list" where
  "replace_book new bs = map (\<lambda>b. if book_id b = book_id new then new else b) bs"

definition update_book_row :: "db \<Rightarrow> book \<Rightarrow> book \<Rightarrow> error + db" where
  "update_book_row d old new =
     ebind (validate_book_shelf_placement d new) (\<lambda>_.
       ebind (book_constraints d new) (\<lambda>_.
         update_shelf_count_on_book_change
           (d\<lparr>books := replace_book new (books d)\<rparr>) (BookUpdate old new)))"

text \<open>
  \<^verbatim>\<open>UPDATE books SET ... WHERE book_id = %s\<close>: \<open>f\<close> is the \<^verbatim>\<open>SET\<close> list,
  \<open>cond\<close> the rest of the \<^verbatim>\<open>WHERE\<close> clause. The result carries the row count.
\<close>

definition update_books_where :: "db \<Rightarrow> int \<Rightarrow> (book \<Rightarrow> bool) \<Rightarrow> (book \<Rightarrow> book) \<Rightarrow> error + (db \<times> nat)" where
  "update_books_where d bid cond f =
     (case find_book d bid of
        None \<Rightarrow> Inr (d, 0)
      | Some old \<Rightarrow>
          if cond old then ebind (update_book_row d old (f old)) (\<lambda>d'. Inr (d', 1))
          else Inr (d, 0))"

text \<open>
  The Python methods wrap one statement each in \<^verbatim>\<open>try/except\<close> and answer
  \<^verbatim>\<open>rows_affected > 0\<close>, or \<^verbatim>\<open>False\<close> after an exception.
\<close>

definition rows_result :: "db \<Rightarrow> error + (db \<times> nat) \<Rightarrow> bool \<times> db" where
  "rows_result d r = (case r of Inl e \<Rightarrow> (False, d) | Inr (d', n) \<Rightarrow> (n > 0, d'))"

text \<open>\<^verbatim>\<open>BooksTableManager.move_book_to_shelf\<close> and \<^verbatim>\<open>BookRepository.move_to_shelf\<close>.\<close>

definition move_book_to_shelf :: "db \<Rightarrow> int \<Rightarrow> int \<Rightarrow> bool \<times> db" where
  "move_book_to_shelf d bid new_shelf_id =
     rows_result d
       (update_books_where d bid (\<lambda>b. book_type b = Physical)
          (\<lambda>b. b\<lparr>book_shelf_id := Some new_shelf_id\<rparr>))"

text \<open>
  \<^verbatim>\<open>UPDATE books SET status = ... WHERE book_id = ...\<close>, the statement of
  \<^verbatim>\<open>update_book_status\<close> and of the loan trigger below.
\<close>

definition set_book_status :: "db \<Rightarrow> int \<Rightarrow> book_status \<Rightarrow> error + (db \<times> nat)" where
  "set_book_status d bid s = update_books_where d bid (\<lambda>b. True) (\<lambda>b. b\<lparr>status := s\<rparr>)"

definition update_book_status :: "db \<Rightarrow> int \<Rightarrow> book_status \<Rightarrow> bool \<times> db" where
  "update_book_status d bid s = rows_result d (set_book_status d bid s)"

text \<open>
  \<^verbatim>\<open>BookRepository.update\<close> restricted to the columns of the model: each of
  \<^verbatim>\<open>book_type\<close>, \<^verbatim>\<open>shelf_id\<close> and \<^verbatim>\<open>status\<close> is set when the dictionary has
  the key (\<^verbatim>\<open>shelf_id\<close> may be set to \<^verbatim>\<open>None\<close>). With no key at all the method
  answers \<^verbatim>\<open>False\<close> without a statement.
\<close>

record book_data =
  new_book_type :: "book_type option"
  new_shelf_id :: "int option option"
  new_status :: "book_status option"

definition apply_book_data :: "book_data \<Rightarrow> book \<Rightarrow> book" where
  "apply_book_data bd b =
     b\<lparr>book_type := (case new_book_type bd of None \<Rightarrow> book_type b | Some t \<Rightarrow> t),
       book_shelf_id := (case new_shelf_id bd of None \<Rightarrow> book_shelf_id b | Some s \<Rightarrow> s),
       status := (case new_status bd of None \<Rightarrow> status b | Some s \<Rightarrow> s)\<rparr>"

definition update_book :: "db \<Rightarrow> int \<Rightarrow> book_data \<Rightarrow> bool \<times> db" where
  "update_book d bid bd =
     (if new_book_type bd = None \<and> new_shelf_id bd = None \<and> new_status bd = None
        then (False, d)
      else rows_result d (update_books_where d bid (\<lambda>b. True) (apply_book_data bd)))"

definition create_book :: "db \<Rightarrow> book \<Rightarrow> bool \<times> db" where
  "create_book d new = (case insert_book d new of Inl e \<Rightarrow> (False, d) | Inr d' \<Rightarrow> (True, d'))"

section \<open>Loans: \<^verbatim>\<open>loans_table.py\<close>\<close>

text \<open>
  \<^verbatim>\<open>calculate_estimated_return_date(loan_date_param, book_type_param)\<close> with its two
  declared constants.
\<close>

definition default_loan_days :: int where
  "default_loan_days = 14"

definition digital_loan_days :: int where
  "digital_loan_days = 7"

definition calculate_estimated_return_date :: "int \<Rightarrow> book_type \<Rightarrow> int" where
  "calculate_estimated_return_date loan_date_param book_type_param =
     (if book_type_param = Digital then loan_date_param + digital_loan_days
      else loan_date_param + default_loan_days)"

text \<open>
  \<^verbatim>\<open>loan_status IN ('active', 'overdue')\<close>, the predicate of the partial unique index
  and of the loan count.
\<close>

definition is_open :: "loan \<Rightarrow> bool" where
  "is_open l = (loan_status l = Active \<or> loan_status l = Overdue)"

text \<open>
  The row a \<^verbatim>\<open>BEFORE INSERT\<close> trigger sees as \<^verbatim>\<open>NEW\<close>, reduced to the columns
  the \<^verbatim>\<open>INSERT\<close> statements of the repository give: \<^verbatim>\<open>estimated_return_date\<close>
  is still nullable there. The other columns take their defaults (\<^verbatim>\<open>'active'\<close>,
  no return date, no renewals).
\<close>

record new_loan =
  new_book_id :: int
  new_student_id :: int
  new_loan_date :: int
  new_estimated_return_date :: "int option"

definition max_loans :: nat where
  "max_loans = 5"

definition active_loans_count :: "db \<Rightarrow> int \<Rightarrow> nat" where
  "active_loans_count d sid =
     length (filter (\<lambda>l. loan_student_id l = sid \<and> is_open l) (loans d))"

text \<open>
  \<^verbatim>\<open>validate_loan_creation()\<close>, the \<^verbatim>\<open>BEFORE INSERT\<close> row trigger. The function
  declares a variable \<^verbatim>\<open>book_type VARCHAR(20)\<close>, and its first statement is
  \<^verbatim>\<open>SELECT status, book_type INTO book_status, book_type FROM books WHERE book_id = NEW.book_id\<close>.
  In the select list the name \<^verbatim>\<open>book_type\<close> is both that variable and a column of
  \<^verbatim>\<open>books\<close>. The function has no \<^verbatim>\<open>#variable_conflict\<close> option, and with the
  setting PostgreSQL comes with (\<^verbatim>\<open>plpgsql.variable_conflict = error\<close>) the statement
  raises \<^verbatim>\<open>column reference "book_type" is ambiguous\<close> each time the function runs,
  whatever the row that is inserted. The tests that follow it in the body are written out
  as the source has them; no call reaches them.
\<close>

definition select_book_status_and_type :: "db \<Rightarrow> int \<Rightarrow> error + (book_status \<times> book_type) option" where
  "select_book_status_and_type d bid = Inl AmbiguousColumn"

definition validate_loan_creation :: "db \<Rightarrow> new_loan \<Rightarrow> error + new_loan" where
  "validate_loan_creation d new =
     ebind (select_book_status_and_type d (new_book_id new)) (\<lambda>found.
       case found of
         None \<Rightarrow> Inl BookNotFound
       | Some (book_status_var, book_type_var) \<Rightarrow>
           if book_status_var \<noteq> Available then Inl BookNotAvailable
           else (case find_student d (new_student_id new) of
                   None \<Rightarrow> Inl StudentNotFound
                 | Some s \<Rightarrow>
                     if student_status s \<noteq> StudentActive then Inl StudentNotActive
                     else if active_loans_count d (new_student_id new) \<ge> max_loans
                       then Inl LoanLimitReached
                     else if new_estimated_return_date new = None
                       then Inr (new\<lparr>new_estimated_return_date :=
                                   Some (calculate_estimated_return_date (new_loan_date new)
                                           book_type_var)\<rparr>)
                     else Inr new))"

text \<open>
  \<^verbatim>\<open>update_book_status_on_loan_change()\<close>, the \<^verbatim>\<open>AFTER INSERT OR UPDATE OR DELETE\<close>
  row trigger. Each of its \<^verbatim>\<open>UPDATE books SET status = ...\<close> is a statement on
  \<^verbatim>\<open>books\<close> and runs the triggers and constraints of that table.
\<close>

datatype loan_event = LoanInsert loan | LoanUpdate loan loan | LoanDelete loan

definition books_status_if :: "bool \<Rightarrow> int \<Rightarrow> book_status \<Rightarrow> db \<Rightarrow> error + db" where
  "books_status_if c bid s d =
     (if c then ebind (set_book_status d bid s) (\<lambda>r. Inr (fst r)) else Inr d)"

fun update_book_status_on_loan_change :: "db \<Rightarrow> loan_event \<Rightarrow> error + db" where
  "update_book_status_on_loan_change d (LoanInsert new) =
     books_status_if True (loan_book_id new) Loaned d"
| "update_book_status_on_loan_change d (LoanUpdate old new) =
     ebind (books_status_if (loan_status old \<noteq> Returned \<and> loan_status new = Returned)
              (loan_book_id new) Available d)
       (\<lambda>d1. ebind (books_status_if (loan_status old = Returned \<and> is_open new)
                      (loan_book_id new) Loaned d1)
          (books_status_if (loan_status old \<noteq> LoanLost \<and> loan_status new = LoanLost)
             (loan_book_id new) BookLost))"
| "update_book_status_on_loan_change d (LoanDelete old) =
     books_status_if (is_open old) (loan_book_id old) Available d"

text \<open>
  The \<^verbatim>\<open>CHECK\<close> constraints of \<^verbatim>\<open>loans\<close>, by name. \<^verbatim>\<open>loan_date + INTERVAL
  '365 days'\<close> is midnight 365 days later, so the comparison is one of day numbers.
\<close>

definition loan_checks :: "int \<Rightarrow> loan \<Rightarrow> (string \<times> bool) list" where
  "loan_checks today l =
     [(''chk_loan_date_not_future'', loan_date l \<le> today),
      (''chk_estimated_return_after_loan'', estimated_return_date l > loan_date l),
      (''chk_actual_return_after_loan'',
         (case actual_return_date l of None \<Rightarrow> True | Some r \<Rightarrow> r \<ge> loan_date l)),
      (''chk_renewal_count_positive'', renewal_count l \<ge> 0),
      (''chk_returned_loan_has_return_date'',
         loan_status l \<noteq> Returned \<or> actual_return_date l \<noteq> None),
      (''chk_active_loan_no_return_date'',
         loan_status l \<noteq> Active \<or> actual_return_date l = None),
      (''chk_reasonable_loan_period'', estimated_return_date l \<le> loan_date l + 365)]"

definition check_all :: "(string \<times> bool) list \<Rightarrow> error + unit" where
  "check_all cs =
     (case find (\<lambda>c. \<not> snd c) cs of
        None \<Rightarrow> Inr ()
      | Some c \<Rightarrow> Inl (CheckViolation (fst c)))"

text \<open>
  \<^verbatim>\<open>idx_loans_unique_active_book\<close>: \<open>others\<close> are the rows of the table apart from
  the one being written.
\<close>

definition unique_active_book :: "loan list \<Rightarrow> loan \<Rightarrow> error + unit" where
  "unique_active_book others new =
     (if is_open new \<and> list_ex (\<lambda>l. is_open l \<and> loan_book_id l = loan_book_id new) others
        then Inl (UniqueViolation ''idx_loans_unique_active_book'')
      else Inr ())"

text \<open>
  \<^verbatim>\<open>INSERT INTO loans (book_id, student_id, loan_date [, estimated_return_date], notes)
  RETURNING loan_id\<close>; \<open>lid\<close> is the value of the \<^verbatim>\<open>SERIAL\<close> sequence. The
  foreign keys are checked on insert only: no statement writes \<^verbatim>\<open>book_id\<close> or
  \<^verbatim>\<open>student_id\<close> of a loan afterwards.
\<close>

definition insert_loan :: "int \<Rightarrow> db \<Rightarrow> int \<Rightarrow> new_loan \<Rightarrow> error + db" where
  "insert_loan today d lid new =
     ebind (validate_loan_creation d new) (\<lambda>new'.
       case new_estimated_return_date new' of
         None \<Rightarrow> Inl (NotNullViolation ''estimated_return_date'')
       | Some est \<Rightarrow>
           (let row = \<lparr>loan_id = lid, loan_book_id = new_book_id new',
                       loan_student_id = new_student_id new', loan_date = new_loan_date new',
                       estimated_return_date = est, actual_return_date = None,
                       loan_status = Active, renewal_count = 0\<rparr>
            in ebind (check_all (loan_checks today row)) (\<lambda>_.
                 if find_loan d lid \<noteq> None then Inl (UniqueViolation ''loans_pkey'')
                 else ebind (unique_active_book (loans d) row) (\<lambda>_.
                   if find_book d (loan_book_id row) = None
                     then Inl (ForeignKeyViolation ''loans_book_id_fkey'')
                   else if find_student d (loan_student_id row) = None
                     then Inl (ForeignKeyViolation ''loans_student_id_fkey'')
                   else update_book_status_on_loan_change
                          (d\<lparr>loans := loans d @ [row]\<rparr>) (LoanInsert row)))))"

text \<open>The update of one row of \<^verbatim>\<open>loans\<close> from \<open>old\<close> to \<open>new\<close> (same \<^verbatim>\<open>loan_id\<close>).\<close>

definition replace_loan :: "loan \<Rightarrow> loan list \<Rightarrow> loan list" where
  "replace_loan new ls = map (\<lambda>l. if loan_id l = loan_id new then new else l) ls"

definition update_loan_row :: "int \<Rightarrow> db \<Rightarrow> loan \<Rightarrow> loan \<Rightarrow> error + db" where
  "update_loan_row today d old new =
     ebind (check_all (loan_checks today new)) (\<lambda>_.
       ebind (unique_active_book (filter (\<lambda>l. loan_id l \<noteq> loan_id old) (loans d)) new) (\<lambda>_.
         update_book_status_on_loan_change
           (d\<lparr>loans := replace_loan new (loans d)\<rparr>) (LoanUpdate old new)))"

text \<open>
  An \<^verbatim>\<open>UPDATE loans SET ...\<close> over the rows the \<^verbatim>\<open>WHERE\<close> clause selected, one
  row after the other; the result carries \<^verbatim>\<open>ROW_COUNT\<close>.
\<close>

fun update_loan_rows :: "int \<Rightarrow> (loan \<Rightarrow> loan) \<Rightarrow> loan list \<Rightarrow> db \<Rightarrow> error + (db \<times> nat)" where
  "update_loan_rows today f [] d = Inr (d, 0)"
| "update_loan_rows today f (old # rest) d =
     ebind (update_loan_row today d old (f old)) (\<lambda>d1.
       ebind (update_loan_rows today f rest d1) (\<lambda>r. Inr (fst r, Suc (snd r))))"

definition update_loans_where :: "int \<Rightarrow> db \<Rightarrow> (loan \<Rightarrow> bool) \<Rightarrow> (loan \<Rightarrow> loan) \<Rightarrow> error + (db \<times> nat)" where
  "update_loans_where today d cond f = update_loan_rows today f (filter cond (loans d)) d"

text \<open>
  \<^verbatim>\<open>UPDATE loans SET ... WHERE loan_id = %s AND ...\<close>: \<^verbatim>\<open>loan_id\<close> is the
  primary key, so the statement writes the row of that id, if \<open>cond\<close> holds of it.
\<close>

definition update_loan_by_id :: "int \<Rightarrow> db \<Rightarrow> int \<Rightarrow> (loan \<Rightarrow> bool) \<Rightarrow> (loan \<Rightarrow> loan) \<Rightarrow> error + (db \<times> nat)" where
  "update_loan_by_id today d lid cond f =
     (case find_loan d lid of
        None \<Rightarrow> Inr (d, 0)
      | Some old \<Rightarrow>
          if cond old then ebind (update_loan_row today d old (f old)) (\<lambda>d'. Inr (d', 1))
          else Inr (d, 0))"

text \<open>
  \<^verbatim>\<open>return_book(loan_id, return_date)\<close>, the same in \<^verbatim>\<open>LoansTableManager\<close> and
  \<^verbatim>\<open>LoanRepository\<close>.
\<close>

definition return_book :: "int \<Rightarrow> db \<Rightarrow> int \<Rightarrow> int option \<Rightarrow> bool \<times> db" where
  "return_book today d lid return_date =
     (let rd = (case return_date of None \<Rightarrow> today | Some r \<Rightarrow> r)
      in rows_result d
           (update_loan_by_id today d lid is_open
              (\<lambda>l. l\<lparr>loan_status := Returned, actual_return_date := Some rd\<rparr>)))"

text \<open>\<^verbatim>\<open>renew_loan(loan_id, new_return_date)\<close>.\<close>

definition renew_loan :: "int \<Rightarrow> db \<Rightarrow> int \<Rightarrow> int \<Rightarrow> bool \<times> db" where
  "renew_loan today d lid new_return_date =
     rows_result d
       (update_loan_by_id today d lid (\<lambda>l. loan_status l = Active)
          (\<lambda>l. l\<lparr>estimated_return_date := new_return_date,
                 renewal_count := renewal_count l + 1\<rparr>))"

text \<open>\<^verbatim>\<open>LoanRepository.update_status(loan_id, status)\<close>.\<close>

definition update_status :: "int \<Rightarrow> db \<Rightarrow> int \<Rightarrow> loan_status \<Rightarrow> bool \<times> db" where
  "update_status today d lid s =
     rows_result d (update_loan_by_id today d lid (\<lambda>l. True) (\<lambda>l. l\<lparr>loan_status := s\<rparr>))"

text \<open>
  \<^verbatim>\<open>update_overdue_loans()\<close>: the stored function, and the Python method that
  answers its count, or 0 after an exception.
\<close>

definition is_past_due :: "int \<Rightarrow> loan \<Rightarrow> bool" where
  "is_past_due today l =
     (loan_status l = Active \<and> actual_return_date l = None \<and> estimated_return_date l < today)"

definition update_overdue_loans_sql :: "int \<Rightarrow> db \<Rightarrow> error + (db \<times> nat)" where
  "update_overdue_loans_sql today d =
     update_loans_where today d (is_past_due today) (\<lambda>l. l\<lparr>loan_status := Overdue\<rparr>)"

definition update_overdue_loans :: "int \<Rightarrow> db \<Rightarrow> nat \<times> db" where
  "update_overdue_loans today d =
     (case update_overdue_loans_sql today d of
        Inl e \<Rightarrow> (0, d)
      | Inr r \<Rightarrow> (snd r, fst r))"

text \<open>
  \<^verbatim>\<open>LoansTableManager.validate_loan_data\<close> on the dictionary \<^verbatim>\<open>create_loan\<close>
  builds: the keys \<^verbatim>\<open>book_id\<close>, \<^verbatim>\<open>student_id\<close>, \<^verbatim>\<open>loan_date\<close> (never
  \<^verbatim>\<open>None\<close> there) and \<^verbatim>\<open>estimated_return_date\<close>. \<^verbatim>\<open>not loan_data.get(field)\<close>
  is true of the id 0.
\<close>

definition validate_loan_data :: "int \<Rightarrow> int \<Rightarrow> int \<Rightarrow> int \<Rightarrow> int option \<Rightarrow> string list" where
  "validate_loan_data today bid sid ld est =
     (if bid = 0 then [''book_id is required''] else []) @
     (if sid = 0 then [''student_id is required''] else []) @
     (if ld > today then [''Loan date cannot be in the future''] else []) @
     (case est of
        None \<Rightarrow> []
      | Some e \<Rightarrow>
          (if e \<le> ld then [''Estimated return date must be after loan date''] else []) @
          (if e - ld > 365 then [''Loan period cannot exceed 365 days''] else []))"

text \<open>\<^verbatim>\<open>LoansTableManager.create_loan\<close>; the answer is the new \<^verbatim>\<open>loan_id\<close> or \<^verbatim>\<open>None\<close>.\<close>

definition create_loan :: "int \<Rightarrow> db \<Rightarrow> int \<Rightarrow> int \<Rightarrow> int \<Rightarrow> int option \<Rightarrow> int option \<Rightarrow> int option \<times> db" where
  "create_loan today d lid bid sid loan_date_arg estimated_return_date_arg =
     (let ld = (case loan_date_arg of None \<Rightarrow> today | Some x \<Rightarrow> x)
      in if validate_loan_data today bid sid ld estimated_return_date_arg \<noteq> [] then (None, d)
         else (case insert_loan today d lid
                      \<lparr>new_book_id = bid, new_student_id = sid, new_loan_date = ld,
                       new_estimated_return_date = estimated_return_date_arg\<rparr> of
                 Inl e \<Rightarrow> (None, d)
               | Inr d' \<Rightarrow> (Some lid, d')))"

text \<open>
  \<^verbatim>\<open>LoanRepository.create_loan\<close>: no validation in Python, and the return date is
  filled in before the statement (\<^verbatim>\<open>loan_date + timedelta(days=14)\<close>, whatever the
  book). \<open>repository_loan_params\<close> is the tuple \<^verbatim>\<open>params\<close> of the
  \<^verbatim>\<open>INSERT\<close>.
\<close>

definition repository_loan_params :: "int \<Rightarrow> int \<Rightarrow> int \<Rightarrow> int option \<Rightarrow> int option \<Rightarrow> new_loan" where
  "repository_loan_params today bid sid loan_date_arg estimated_return_date_arg =
     (let ld = (case loan_date_arg of None \<Rightarrow> today | Some x \<Rightarrow> x);
          est = (case estimated_return_date_arg of None \<Rightarrow> ld + 14 | Some e \<Rightarrow> e)
      in \<lparr>new_book_id = bid, new_student_id = sid, new_loan_date = ld,
          new_estimated_return_date = Some est\<rparr>)"

definition repository_create_loan :: "int \<Rightarrow> db \<Rightarrow> int \<Rightarrow> int \<Rightarrow> int \<Rightarrow> int option \<Rightarrow> int option \<Rightarrow> int option \<times> db" where
  "repository_create_loan today d lid bid sid loan_date_arg estimated_return_date_arg =
     (case insert_loan today d lid
             (repository_loan_params today bid sid loan_date_arg estimated_return_date_arg) of
        Inl e \<Rightarrow> (None, d)
      | Inr d' \<Rightarrow> (Some lid, d'))"

text \<open>
  The deletion of one row of \<^verbatim>\<open>loans\<close>, with its \<^verbatim>\<open>AFTER DELETE\<close> trigger. No
  Python method deletes loans; their rows are deleted by \<^verbatim>\<open>ON DELETE CASCADE\<close>
  when their book goes, one row after the other.
\<close>

definition delete_loan_row :: "db \<Rightarrow> loan \<Rightarrow> error + db" where
  "delete_loan_row d old =
     update_book_status_on_loan_change
       (d\<lparr>loans := filter (\<lambda>l. loan_id l \<noteq> loan_id old) (loans d)\<rparr>) (LoanDelete old)"

fun delete_loan_rows :: "loan list \<Rightarrow> db \<Rightarrow> error + db" where
  "delete_loan_rows [] d = Inr d"
| "delete_loan_rows (old # rest) d = ebind (delete_loan_row d old) (delete_loan_rows rest)"

text \<open>
  \<^verbatim>\<open>BookRepository.delete\<close>, \<^verbatim>\<open>DELETE FROM books WHERE book_id = %s\<close>: the row goes,
  its loans go by \<^verbatim>\<open>ON DELETE CASCADE\<close>, and the \<^verbatim>\<open>AFTER DELETE\<close> trigger of
  \<^verbatim>\<open>books\<close> adjusts the shelf.
\<close>

definition delete_book_sql :: "db \<Rightarrow> int \<Rightarrow> error + (db \<times> nat)" where
  "delete_book_sql d bid =
     (case find_book d bid of
        None \<Rightarrow> Inr (d, 0)
      | Some old \<Rightarrow>
          ebind (delete_loan_rows (filter (\<lambda>l. loan_book_id l = bid) (loans d))
                   (d\<lparr>books := filter (\<lambda>b. book_id b \<noteq> bid) (books d)\<rparr>))
            (\<lambda>d1. ebind (update_shelf_count_on_book_change d1 (BookDelete old))
                     (\<lambda>d2. Inr (d2, 1))))"

definition delete_book :: "db \<Rightarrow> int \<Rightarrow> bool \<times> db" where
  "delete_book d bid = rows_result d (delete_book_sql d bid)"

section \<open>Reconciliation: \<^verbatim>\<open>shelf_repository.py\<close>\<close>

text \<open>
  The count both statements recompute:
  \<^verbatim>\<open>books.shelf_id = shelves.shelf_id AND books.book_type = 'physical'\<close>.
\<close>

definition actual_book_count :: "db \<Rightarrow> int \<Rightarrow> int" where
  "actual_book_count d sid =
     int (length (filter (\<lambda>b. book_shelf_id b = Some sid \<and> book_type b = Physical) (books d)))"

text \<open>
  \<^verbatim>\<open>validate_capacity_consistency\<close>: one group per shelf (\<^verbatim>\<open>shelf_id\<close> is the
  primary key), kept by \<^verbatim>\<open>HAVING COUNT(b.book_id) != s.current_book_count\<close>, ordered
  by \<^verbatim>\<open>location_code\<close>. A result row is \<^verbatim>\<open>shelf_id\<close>, \<^verbatim>\<open>location_code\<close>,
  \<^verbatim>\<open>actual_book_count\<close>, \<^verbatim>\<open>recorded_count\<close>; its \<^verbatim>\<open>status\<close> is always
  \<^verbatim>\<open>'MISMATCH'\<close>.
\<close>

definition has_drift :: "db \<Rightarrow> shelf \<Rightarrow> bool" where
  "has_drift d s = (actual_book_count d (shelf_id s) \<noteq> current_book_count s)"

definition validate_capacity_consistency :: "db \<Rightarrow> (int \<times> string \<times> int \<times> int) list" where
  "validate_capacity_consistency d =
     map (\<lambda>s. (shelf_id s, location_code s, actual_book_count d (shelf_id s), current_book_count s))
       (sort_key location_code (filter (has_drift d) (shelves d)))"

text \<open>
  \<^verbatim>\<open>fix_capacity_counts\<close>: an \<^verbatim>\<open>UPDATE shelves\<close> without \<^verbatim>\<open>WHERE\<close>. Every row is
  written (so the trigger stamps every row) and counted in \<^verbatim>\<open>rows_affected\<close>;
  \<^verbatim>\<open>chk_current_book_count_valid\<close> is checked on each new row, and a violation undoes
  the statement (the method then answers 0).
\<close>

definition recount :: "db \<Rightarrow> shelf \<Rightarrow> shelf" where
  "recount d s =
     update_shelves_updated_at (current_timestamp d)
       (s\<lparr>current_book_count := actual_book_count d (shelf_id s)\<rparr>)"

definition chk_current_book_count_valid :: "shelf \<Rightarrow> bool" where
  "chk_current_book_count_valid s =
     (current_book_count s \<ge> 0 \<and> current_book_count s \<le> total_capacity s)"

definition fix_capacity_counts :: "db \<Rightarrow> nat \<times> db" where
  "fix_capacity_counts d =
     (let new_rows = map (recount d) (shelves d)
      in if list_all chk_current_book_count_valid new_rows
           then (length new_rows, d\<lparr>shelves := new_rows\<rparr>)
         else (0, d))"

section \<open>Histories of statements\<close>

text \<open>
  The mutating calls of the managers and repositories modelled above, each with the date
  and the sequence value it runs with, and the clock moving on between two calls. A call
  that fails leaves the database as it was.
\<close>

datatype operation =
    CreateBook book
  | UpdateBook int book_data
  | MoveBookToShelf int int
  | UpdateBookStatus int book_status
  | DeleteBook int
  | UpdateBookCount int int
  | FixCapacityCounts
  | CreateLoan int int int int "int option" "int option"
  | RepositoryCreateLoan int int int int "int option" "int option"
  | ReturnBook int int "int option"
  | RenewLoan int int int
  | UpdateStatus int int loan_status
  | UpdateOverdueLoans int
  | TimePasses int

fun apply_operation :: "db \<Rightarrow> operation \<Rightarrow> db" where
  "apply_operation d (CreateBook b) = snd (create_book d b)"
| "apply_operation d (UpdateBook bid bd) = snd (update_book d bid bd)"
| "apply_operation d (MoveBookToShelf bid sid) = snd (move_book_to_shelf d bid sid)"
| "apply_operation d (UpdateBookStatus bid s) = snd (update_book_status d bid s)"
| "apply_operation d (DeleteBook bid) = snd (delete_book d bid)"
| "apply_operation d (UpdateBookCount sid n) = snd (update_book_count d sid n)"
| "apply_operation d FixCapacityCounts = snd (fix_capacity_counts d)"
| "apply_operation d (CreateLoan today lid bid sid ld est) =
     snd (create_loan today d lid bid sid ld est)"
| "apply_operation d (RepositoryCreateLoan today lid bid sid ld est) =
     snd (repository_create_loan today d lid bid sid ld est)"
| "apply_operation d (ReturnBook today lid rd) = snd (return_book today d lid rd)"
| "apply_operation d (RenewLoan today lid nd) = snd (renew_loan today d lid nd)"
| "apply_operation d (UpdateStatus today lid s) = snd (update_status today d lid s)"
| "apply_operation d (UpdateOverdueLoans today) = snd (update_overdue_loans today d)"
| "apply_operation d (TimePasses now) = d\<lparr>current_timestamp := now\<rparr>"

definition run :: "db \<Rightarrow> operation list \<Rightarrow> db" where
  "run d ops = foldl apply_operation d ops"

section \<open>Properties of stored tables\<close>

text \<open>
  What PostgreSQL guarantees of the rows of \<^verbatim>\<open>loans\<close> at any moment: the primary
  key, the partial unique index, and the \<^verbatim>\<open>CHECK\<close> constraints (as evaluated on
  the day \<open>today\<close>).
\<close>

definition open_loans_of_book :: "db \<Rightarrow> int \<Rightarrow> loan list" where
  "open_loans_of_book d bid = filter (\<lambda>l. loan_book_id l = bid \<and> is_open l) (loans d)"

definition loans_keyed :: "loan list \<Rightarrow> bool" where
  "loans_keyed ls =
     (distinct (map loan_id ls) \<and> distinct (map loan_book_id (filter is_open ls)))"

definition loans_checked :: "int \<Rightarrow> loan list \<Rightarrow> bool" where
  "loans_checked today ls = list_all (\<lambda>l. list_all snd (loan_checks today l)) ls"

text \<open>
  The ledger invariant of a shelf table: every recorded count is the number of physical
  books on the shelf and lies within the capacity.
\<close>

definition ledger_consistent :: "db \<Rightarrow> bool" where
  "ledger_consistent d =
     list_all (\<lambda>s. current_book_count s = actual_book_count d (shelf_id s)
                  \<and> chk_current_book_count_valid s) (shelves d)"

text \<open>
  For the proofs about the ledger: the contribution of one book to the count of a shelf,
  and a shelf table whose recorded counts are off by \<open>g\<close> (a book row has been written and
  the trigger has not yet run, or has run in part).
\<close>

definition on_shelf :: "book \<Rightarrow> int \<Rightarrow> int" where
  "on_shelf b sid = (if book_shelf_id b = Some sid \<and> book_type b = Physical then 1 else 0)"

definition off_by :: "db \<Rightarrow> (int \<Rightarrow> int) \<Rightarrow> bool" where
  "off_by d g =
     (\<forall>s \<in> set (shelves d).
        current_book_count s = actual_book_count d (shelf_id s) + g (shelf_id s)
      \<and> (g (shelf_id s) = 0 \<longrightarrow> chk_current_book_count_valid s))"

definition shelf_count :: "db \<Rightarrow> int \<Rightarrow> int option" where
  "shelf_count d sid = map_option current_book_count (find_shelf d sid)"

section \<open>Sample databases\<close>

text \<open>
  Three shelves, two physical books and a digital one, an active and an inactive student,
  no loans. The rows were last written at the timestamp 0, which is also the time.
\<close>

definition sample_shelves :: "shelf list" where
  "sample_shelves =
     [\<lparr>shelf_id = 1, location_code = ''A1'', total_capacity = 10, current_book_count = 1,
       updated_at = 0\<rparr>,
      \<lparr>shelf_id = 2, location_code = ''B1'', total_capacity = 10, current_book_count = 0,
       updated_at = 0\<rparr>,
      \<lparr>shelf_id = 3, location_code = ''C1'', total_capacity = 1, current_book_count = 1,
       updated_at = 0\<rparr>]"

definition sample_books :: "book list" where
  "sample_books =
     [\<lparr>book_id = 1, book_type = Physical, book_shelf_id = Some 1, status = Available\<rparr>,
      \<lparr>book_id = 2, book_type = Digital, book_shelf_id = None, status = Available\<rparr>,
      \<lparr>book_id = 3, book_type = Physical, book_shelf_id = Some 3, status = Available\<rparr>]"

definition sample_students :: "student list" where
  "sample_students =
     [\<lparr>student_id = 1, student_status = StudentActive\<rparr>,
      \<lparr>student_id = 2, student_status = StudentInactive\<rparr>]"

definition sample_db :: db where
  "sample_db = \<lparr>shelves = sample_shelves, books = sample_books,
                students = sample_students, loans = [], current_timestamp = 0\<rparr>"

text \<open>
  The sample database with a loan of the digital book 2 to student 1, made on day 100 and
  due on day 107.
\<close>

definition sample_loan :: loan where
  "sample_loan =
     \<lparr>loan_id = 1, loan_book_id = 2, loan_student_id = 1, loan_date = 100,
      estimated_return_date = 107, actual_return_date = None, loan_status = Active,
      renewal_count = 0\<rparr>"

definition lent_db :: db where
  "lent_db =
     \<lparr>shelves = sample_shelves,
      books =
        [\<lparr>book_id = 1, book_type = Physical, book_shelf_id = Some 1, status = Available\<rparr>,
         \<lparr>book_id = 2, book_type = Digital, book_shelf_id = None, status = Loaned\<rparr>,
         \<lparr>book_id = 3, book_type = Physical, book_shelf_id = Some 3, status = Available\<rparr>],
      students = sample_students,
      loans = [sample_loan],
      current_timestamp = 0\<rparr>"

text \<open>
  A database where student 1 holds five open loans, on the digital books 11 to 15, and
  the digital book 16 is available.
\<close>

definition digital_book :: "book_status \<Rightarrow> int \<Rightarrow> book" where
  "digital_book s i = \<lparr>book_id = i, book_type = Digital, book_shelf_id = None, status = s\<rparr>"

definition open_loan_on :: "int \<Rightarrow> loan" where
  "open_loan_on i =
     \<lparr>loan_id = i, loan_book_id = i, loan_student_id = 1, loan_date = 100,
      estimated_return_date = 107, actual_return_date = None, loan_status = Active,
      renewal_count = 0\<rparr>"

definition five_loans_db :: db where
  "five_loans_db =
     \<lparr>shelves = [],
      books = map (digital_book Loaned) [11, 12, 13, 14, 15] @ [digital_book Available 16],
      students = sample_students,
      loans = map open_loan_on [11, 12, 13, 14, 15],
      current_timestamp = 0\<rparr>"

text \<open>
  The sample database with two wrong counts (shelf 1 records 5, shelf 3 records 0), and a
  database where shelf 3, of capacity 1, holds two books.
\<close>

definition drifted_db :: db where
  "drifted_db =
     sample_db\<lparr>shelves := set_shelf_count 0 1 5 (set_shelf_count 0 3 0 sample_shelves)\<rparr>"

definition overfull_db :: db where
  "overfull_db =
     sample_db\<lparr>books := sample_books @
       [\<lparr>book_id = 4, book_type = Physical, book_shelf_id = Some 3, status = Available\<rparr>]\<rparr>"

text \<open>
  The lent sample database with a second loan, of the physical book 3, which stands alone
  on its shelf of capacity 1.
\<close>

definition full_shelf_loan :: loan where
  "full_shelf_loan =
     \<lparr>loan_id = 2, loan_book_id = 3, loan_student_id = 1, loan_date = 100,
      estimated_return_date = 114, actual_return_date = None, loan_status = Active,
      renewal_count = 0\<rparr>"

definition full_shelf_db :: db where
  "full_shelf_db =
     \<lparr>shelves = sample_shelves,
      books =
        [\<lparr>book_id = 1, book_type = Physical, book_shelf_id = Some 1, status = Available\<rparr>,
         \<lparr>book_id = 2, book_type = Digital, book_shelf_id = None, status = Loaned\<rparr>,
         \<lparr>book_id = 3, book_type = Physical, book_shelf_id = Some 3, status = Loaned\<rparr>],
      students = sample_students,
      loans = [sample_loan, full_shelf_loan],
      current_timestamp = 0\<rparr>"

text \<open>
  A database with one shelf, of capacity 2, that holds the physical book 4, lent to student
  1 on day 100; and the book 5, to be put on the same shelf.
\<close>

definition shared_shelf_db :: db where
  "shared_shelf_db =
     \<lparr>shelves =
        [\<lparr>shelf_id = 4, location_code = ''D1'', total_capacity = 2, current_book_count = 1,
          updated_at = 0\<rparr>],
      books = [\<lparr>book_id = 4, book_type = Physical, book_shelf_id = Some 4, status = Loaned\<rparr>],
      students = sample_students,
      loans =
        [\<lparr>loan_id = 4, loan_book_id = 4, loan_student_id = 1, loan_date = 100,
          estimated_return_date = 114, actual_return_date = None, loan_status = Active,
          renewal_count = 0\<rparr>],
      current_timestamp = 0\<rparr>"

definition second_book :: book where
  "second_book =
     \<lparr>book_id = 5, book_type = Physical, book_shelf_id = Some 4, status = Available\<rparr>"

section \<open>Basic facts\<close>

lemma ebind_simps [simp]:
  "ebind (Inl e) f = Inl e"
  "ebind (Inr x) f = f x"
  by (simp_all add: ebind_def)

lemma ebind_eq_Inr: "(ebind m f = Inr y) = (\<exists>x. m = Inr x \<and> f x = Inr y)"
  by (cases m) simp_all

lemma find_set_shelf_count:
  "find (\<lambda>s. shelf_id s = sid') (set_shelf_count now sid n ss) =
     (if sid' = sid
        then map_option (\<lambda>s. s\<lparr>current_book_count := n, updated_at := now\<rparr>)
               (find (\<lambda>s. shelf_id s = sid) ss)
      else find (\<lambda>s. shelf_id s = sid') ss)"
  by (induction ss) (auto simp: set_shelf_count_def update_shelves_updated_at_def)

lemma set_shelf_count_others:
  "filter (\<lambda>r. shelf_id r \<noteq> sid) (set_shelf_count now sid n ss) =
     filter (\<lambda>r. shelf_id r \<noteq> sid) ss"
  by (induction ss) (auto simp: set_shelf_count_def update_shelves_updated_at_def)

lemma set_shelf_count_fields:
  "map (\<lambda>r. r\<lparr>current_book_count := 0, updated_at := 0\<rparr>) (set_shelf_count now sid n ss) =
     map (\<lambda>r. r\<lparr>current_book_count := 0, updated_at := 0\<rparr>) ss"
  by (induction ss) (auto simp: set_shelf_count_def update_shelves_updated_at_def)

lemma actual_book_count_shelves [simp]:
  "actual_book_count (d\<lparr>shelves := ss\<rparr>) sid = actual_book_count d sid"
  by (simp add: actual_book_count_def)

lemma find_SomeD: "find P xs = Some x \<Longrightarrow> P x \<and> x \<in> set xs"
  by (induction xs) (auto split: if_splits)

lemma find_replace_book:
  "find (\<lambda>b. book_id b = bid) (replace_book new bs) =
     (if bid = book_id new then map_option (\<lambda>_. new) (find (\<lambda>b. book_id b = bid) bs)
      else find (\<lambda>b. book_id b = bid) bs)"
  by (induction bs) (auto simp: replace_book_def)

text \<open>
  A status update of a book row that succeeds writes that row and nothing else: the
  shelf trigger sees the same shelf and type.
\<close>

lemma status_update_row:
  "update_book_row d old (old\<lparr>status := s\<rparr>) = Inr d' \<Longrightarrow>
     d' = d\<lparr>books := replace_book (old\<lparr>status := s\<rparr>) (books d)\<rparr>"
  by (auto simp: update_book_row_def ebind_eq_Inr)

lemma set_book_status_Inr:
  assumes "set_book_status d bid s = Inr (d', n)"
  shows "(find_book d bid = None \<and> d' = d \<and> n = 0) \<or>
         (\<exists>old. find_book d bid = Some old \<and> n = 1 \<and>
                d' = d\<lparr>books := replace_book (old\<lparr>status := s\<rparr>) (books d)\<rparr>)"
  using assms
  by (auto simp: set_book_status_def update_books_where_def ebind_eq_Inr
      split: option.splits dest: status_update_row)

lemma books_status_if_Inr:
  assumes "books_status_if c bid s d = Inr d'"
  shows "(\<not> c \<or> find_book d bid = None) \<and> d' = d \<or>
         (\<exists>old. c \<and> find_book d bid = Some old \<and>
                d' = d\<lparr>books := replace_book (old\<lparr>status := s\<rparr>) (books d)\<rparr>)"
proof (cases c)
  case False
  with assms show ?thesis by (simp add: books_status_if_def)
next
  case True
  with assms obtain r where r: "set_book_status d bid s = Inr r" and d': "d' = fst r"
    by (auto simp: books_status_if_def ebind_eq_Inr)
  from set_book_status_Inr [of d bid s "fst r" "snd r"] r d' True show ?thesis
    by auto
qed

lemma check_all_Inr: "(check_all cs = Inr u) = list_all snd cs"
  by (induction cs) (auto simp: check_all_def)

text \<open>
  No \<^verbatim>\<open>INSERT INTO loans\<close> gets past \<^verbatim>\<open>validate_loan_creation\<close>: the trigger
  raises at its first statement.
\<close>

lemma insert_loan_raises: "insert_loan today d lid new = Inl AmbiguousColumn"
  by (simp add: insert_loan_def validate_loan_creation_def select_book_status_and_type_def)

lemma find_replace_loan:
  "find (\<lambda>l. loan_id l = lid) (replace_loan new ls) =
     (if lid = loan_id new then map_option (\<lambda>_. new) (find (\<lambda>l. loan_id l = lid) ls)
      else find (\<lambda>l. loan_id l = lid) ls)"
  by (induction ls) (auto simp: replace_loan_def)

lemma set_book_status_loans:
  "set_book_status (d\<lparr>loans := x\<rparr>) bid s =
     (case set_book_status d bid s of
        Inl e \<Rightarrow> Inl e
      | Inr r \<Rightarrow> Inr (fst r\<lparr>loans := x\<rparr>, snd r))"
  by (auto simp: set_book_status_def update_books_where_def find_book_def update_book_row_def
      validate_book_shelf_placement_def check_shelf_capacity_def find_shelf_def
      book_constraints_def ebind_def split: option.splits sum.splits)

text \<open>The row update of a return: the checks, then the status update of the book.\<close>

lemma return_row:
  assumes "is_open old"
  shows "update_loan_row today d old (old\<lparr>loan_status := Returned, actual_return_date := Some rd\<rparr>) =
     ebind (check_all (loan_checks today (old\<lparr>loan_status := Returned, actual_return_date := Some rd\<rparr>)))
       (\<lambda>_. books_status_if True (loan_book_id old) Available
          (d\<lparr>loans := replace_loan (old\<lparr>loan_status := Returned, actual_return_date := Some rd\<rparr>) (loans d)\<rparr>))"
  using assms
  by (cases "check_all (loan_checks today (old\<lparr>loan_status := Returned, actual_return_date := Some rd\<rparr>))")
     (auto simp: update_loan_row_def unique_active_book_def is_open_def books_status_if_def ebind_def
       split: sum.splits)

lemma returned_checks:
  assumes "list_all snd (loan_checks today l)"
  shows "list_all snd (loan_checks today (l\<lparr>loan_status := Returned, actual_return_date := Some rd\<rparr>))
     = (loan_date l \<le> rd)"
  using assms by (auto simp: loan_checks_def)

section \<open>The shelf ledger\<close>

text \<open>
  Claim C4, as stated, gives a call whose result would lie above the capacity the error
  for that case, and has a successful call write no field but the count. On the sample
  database shelf 1 records one book of ten; \<^verbatim>\<open>update_book_count(1, 2147483647)\<close>
  asks for a count above the capacity, and the addition in the function's first statement
  raises \<^verbatim>\<open>integer out of range\<close> before the test of the capacity is reached. And
  a successful call, made at the timestamp 5 on shelf 2, leaves the row with that
  timestamp in \<^verbatim>\<open>updated_at\<close>, where it had 0.
\<close>

theorem try_adjust_overflows_and_stamps:
  "shelf_count sample_db 1 = Some 1
   \<and> map_option total_capacity (find_shelf sample_db 1) = Some 10
   \<and> update_shelf_book_count sample_db 1 2147483647 = Inl IntegerOutOfRange
   \<and> update_book_count sample_db 1 2147483647 = (False, sample_db)
   \<and> map_option updated_at (find_shelf sample_db 2) = Some 0
   \<and> (let r = update_book_count (sample_db\<lparr>current_timestamp := 5\<rparr>) 2 1
       in fst r \<and> shelf_count (snd r) 2 = Some 1
        \<and> map_option updated_at (find_shelf (snd r) 2) = Some 5)"
  by code_simp

text \<open>
  Claim C4, amended. \<^verbatim>\<open>update_shelf_book_count(shelf, delta)\<close> succeeds exactly when
  the shelf exists and \<^verbatim>\<open>current_book_count + delta\<close> lies in \<open>[0, total_capacity]\<close>.
  A successful call leaves the shelf with the count \<^verbatim>\<open>current_book_count + delta\<close> and
  with the current timestamp in \<^verbatim>\<open>updated_at\<close>; it leaves the rows of every other
  shelf and every column but these two as they were, and touches no other table. An unknown
  shelf raises its exception. On a shelf that exists, with \<^verbatim>\<open>INTEGER\<close> values in the
  row and in the argument: a sum that does not fit the type raises
  \<^verbatim>\<open>integer out of range\<close>; otherwise a negative sum and a sum above the capacity
  raise their own exceptions. After an exception the database (so the count) is what it was,
  and the Python method answers \<^verbatim>\<open>False\<close>.
\<close>

theorem try_adjust_contract:
  "((\<exists>d'. update_shelf_book_count d sid delta = Inr d') \<longleftrightarrow>
      (\<exists>s. find_shelf d sid = Some s \<and> 0 \<le> current_book_count s + delta
           \<and> current_book_count s + delta \<le> total_capacity s))
   \<and> (\<forall>s d'. find_shelf d sid = Some s \<longrightarrow> update_shelf_book_count d sid delta = Inr d' \<longrightarrow>
          update_book_count d sid delta = (True, d')
        \<and> find_shelf d' sid =
            Some (s\<lparr>current_book_count := current_book_count s + delta,
                    updated_at := current_timestamp d\<rparr>)
        \<and> filter (\<lambda>r. shelf_id r \<noteq> sid) (shelves d') = filter (\<lambda>r. shelf_id r \<noteq> sid) (shelves d)
        \<and> map (\<lambda>r. r\<lparr>current_book_count := 0, updated_at := 0\<rparr>) (shelves d') =
            map (\<lambda>r. r\<lparr>current_book_count := 0, updated_at := 0\<rparr>) (shelves d)
        \<and> books d' = books d \<and> students d' = students d \<and> loans d' = loans d
        \<and> current_timestamp d' = current_timestamp d)
   \<and> (find_shelf d sid = None \<longrightarrow> update_shelf_book_count d sid delta = Inl ShelfNotFound)
   \<and> (\<forall>s. find_shelf d sid = Some s \<longrightarrow>
          int4 (current_book_count s) \<longrightarrow> int4 (total_capacity s) \<longrightarrow> int4 delta \<longrightarrow>
          (\<not> int4 (current_book_count s + delta) \<longrightarrow>
             update_shelf_book_count d sid delta = Inl IntegerOutOfRange)
        \<and> (int4 (current_book_count s + delta) \<longrightarrow> current_book_count s + delta < 0 \<longrightarrow>
             update_shelf_book_count d sid delta = Inl NegativeCount)
        \<and> (int4 (current_book_count s + delta) \<longrightarrow> 0 \<le> current_book_count s + delta \<longrightarrow>
             total_capacity s < current_book_count s + delta \<longrightarrow>
             update_shelf_book_count d sid delta = Inl CapacityExceeded))
   \<and> (\<forall>e. update_shelf_book_count d sid delta = Inl e \<longrightarrow>
          update_book_count d sid delta = (False, d))"
proof (cases "find_shelf d sid")
  case None
  then show ?thesis
    by (simp add: update_shelf_book_count_def update_book_count_def)
next
  case (Some s)
  have fits: "int4 (current_book_count s + delta)"
    if "int4 (total_capacity s)" "0 \<le> current_book_count s + delta"
      "current_book_count s + delta \<le> total_capacity s"
    using that by (simp add: int4_def)
  have outside: "current_book_count s + delta < 0 \<or> total_capacity s < current_book_count s + delta"
    if "int4 (total_capacity s)" "\<not> int4 (current_book_count s + delta)"
    using that by (auto simp: int4_def)
  from Some fits outside show ?thesis
    by (auto simp: update_shelf_book_count_def update_book_count_def Let_def find_shelf_def
        find_set_shelf_count set_shelf_count_others set_shelf_count_fields)
qed

text \<open>
  On the sample database: shelf 2 (empty, capacity 10) takes one book and shelf 1 keeps its
  count; shelf 3 is full; shelf 2 cannot go below zero; shelf 9 does not exist; and the
  count of shelf 1 cannot be raised by 2147483647.
\<close>

theorem try_adjust_contract_witness:
  "(\<exists>d'. update_shelf_book_count sample_db 2 1 = Inr d'
         \<and> shelf_count d' 2 = Some 1 \<and> shelf_count d' 1 = Some 1)
   \<and> update_shelf_book_count sample_db 3 1 = Inl CapacityExceeded
   \<and> update_shelf_book_count sample_db 2 (- 1) = Inl NegativeCount
   \<and> update_shelf_book_count sample_db 9 1 = Inl ShelfNotFound
   \<and> update_shelf_book_count sample_db 1 2147483647 = Inl IntegerOutOfRange
   \<and> update_book_count sample_db 3 1 = (False, sample_db)"
  using try_adjust_contract [of sample_db 2 1] try_adjust_contract [of sample_db 3 1]
    try_adjust_contract [of sample_db 2 "- 1"] try_adjust_contract [of sample_db 9 1]
    try_adjust_contract [of sample_db 1 2147483647]
  by (simp add: sample_db_def sample_shelves_def find_shelf_def shelf_count_def int4_def
      update_shelf_book_count_def update_book_count_def set_shelf_count_def
      update_shelves_updated_at_def)

section \<open>The ledger under changes of a book\<close>

text \<open>
  With the primary keys of \<^verbatim>\<open>shelves\<close> and \<^verbatim>\<open>books\<close> in place, an accepted
  insert of a book, an accepted delete, and an accepted update that does not turn a digital
  book into a physical one all keep every recorded count equal to the number of physical
  books on the shelf, and within the capacity.
\<close>

lemma actual_sum: "actual_book_count d sid = sum_list (map (\<lambda>b. on_shelf b sid) (books d))"
proof -
  have "int (length (filter P bs)) = sum_list (map (\<lambda>b. if P b then 1 else 0) bs)"
    for P :: "book \<Rightarrow> bool" and bs
    by (induction bs) auto
  then show ?thesis
    by (simp add: actual_book_count_def on_shelf_def)
qed

lemma ledger_off_by: "ledger_consistent d = off_by d (\<lambda>_. 0)"
  by (auto simp: ledger_consistent_def off_by_def list_all_iff)

lemma adjust_off_by:
  assumes dist: "distinct (map shelf_id (shelves d))"
    and off: "off_by d g"
    and upd: "update_shelf_book_count d sid n = Inr d'"
  shows "off_by d' (g(sid := g sid + n)) \<and> distinct (map shelf_id (shelves d'))
       \<and> books d' = books d"
proof -
  from upd obtain s where s: "find_shelf d sid = Some s"
    and lo: "0 \<le> current_book_count s + n" and hi: "current_book_count s + n \<le> total_capacity s"
    and d': "d' = d\<lparr>shelves := set_shelf_count (current_timestamp d) sid
                                     (current_book_count s + n) (shelves d)\<rparr>"
    by (auto simp: update_shelf_book_count_def Let_def split: option.splits if_splits)
  from s have sin: "s \<in> set (shelves d)" "shelf_id s = sid"
    by (auto simp: find_shelf_def dest: find_SomeD)
  have only: "r = s" if "r \<in> set (shelves d)" "shelf_id r = sid" for r
    using dist sin that by (metis distinct_map inj_onD)
  have ids: "map shelf_id (set_shelf_count t sid m ss) = map shelf_id ss" for t m ss
    by (induction ss) (auto simp: set_shelf_count_def update_shelves_updated_at_def)
  have "off_by d' (g(sid := g sid + n))"
    unfolding off_by_def
  proof (intro ballI)
    fix r' assume "r' \<in> set (shelves d')"
    then obtain r where r: "r \<in> set (shelves d)"
      and r': "r' = (if shelf_id r = sid
                     then r\<lparr>current_book_count := current_book_count s + n,
                            updated_at := current_timestamp d\<rparr>
                     else r)"
      by (auto simp: d' set_shelf_count_def update_shelves_updated_at_def)
    from off r have rc: "current_book_count r = actual_book_count d (shelf_id r) + g (shelf_id r)"
      and rv: "g (shelf_id r) = 0 \<longrightarrow> chk_current_book_count_valid r"
      by (auto simp: off_by_def)
    show "current_book_count r' = actual_book_count d' (shelf_id r') + (g(sid := g sid + n)) (shelf_id r')
        \<and> ((g(sid := g sid + n)) (shelf_id r') = 0 \<longrightarrow> chk_current_book_count_valid r')"
    proof (cases "shelf_id r = sid")
      case True
      with only [OF r] have "r = s" by simp
      with True r' rc lo hi show ?thesis
        by (simp add: d' chk_current_book_count_valid_def)
    next
      case False
      with r' rc rv show ?thesis by (simp add: d')
    qed
  qed
  with dist show ?thesis by (simp add: d' ids)
qed

lemma adjust_if_off_by:
  assumes "distinct (map shelf_id (shelves d))" "off_by d g" "adjust_if c sid n d = Inr d'"
  shows "off_by d' (case sid of None \<Rightarrow> g | Some s \<Rightarrow> if c then g(s := g s + n) else g)
       \<and> distinct (map shelf_id (shelves d')) \<and> books d' = books d"
  using assms adjust_off_by [of d g _ n d']
  by (auto simp: adjust_if_def split: option.splits if_splits)

lemma off_by_cong: "off_by d g \<Longrightarrow> (\<And>sid. g sid = h sid) \<Longrightarrow> off_by d h"
  by (simp add: off_by_def)

lemma off_by_books:
  assumes "ledger_consistent d"
    and "\<And>sid. actual_book_count (d\<lparr>books := bs\<rparr>) sid = actual_book_count d sid + h sid"
  shows "off_by (d\<lparr>books := bs\<rparr>) (\<lambda>sid. - h sid)"
  using assms by (auto simp: ledger_consistent_def off_by_def list_all_iff)

lemma sum_replace_book:
  assumes "distinct (map book_id bs)" "old \<in> set bs" "book_id new = book_id old"
  shows "sum_list (map f (replace_book new bs)) = sum_list (map f bs) - f old + (f new :: int)"
  using assms
proof (induction bs)
  case Nil
  then show ?case by simp
next
  case (Cons b bs)
  show ?case
  proof (cases "b = old")
    case True
    with Cons.prems have "book_id new \<notin> book_id ` set bs" by auto
    then have "replace_book new bs = bs"
      by (induction bs) (auto simp: replace_book_def)
    with True Cons.prems(3) show ?thesis
      by (simp add: replace_book_def)
  next
    case False
    with Cons.prems have o: "old \<in> set bs" by simp
    then have "book_id old \<in> book_id ` set bs" by (rule imageI)
    with Cons.prems(1,3) have "book_id b \<noteq> book_id new" by (metis distinct.simps(2) list.simps(9) list.set_map)
    moreover from Cons.prems(1) have "distinct (map book_id bs)" by simp
    note Cons.IH [OF this o Cons.prems(3)]
    ultimately show ?thesis
      by (simp add: replace_book_def)
  qed
qed

lemma sum_remove_book:
  assumes "distinct (map book_id bs)" "old \<in> set bs"
  shows "sum_list (map f (filter (\<lambda>b. book_id b \<noteq> book_id old) bs)) =
         sum_list (map f bs) - (f old :: int)"
  using assms
proof (induction bs)
  case Nil
  then show ?case by simp
next
  case (Cons b bs)
  show ?case
  proof (cases "b = old")
    case True
    with Cons.prems have "book_id old \<notin> book_id ` set bs" by auto
    then have "filter (\<lambda>b. book_id b \<noteq> book_id old) bs = bs"
      by (induction bs) auto
    with True show ?thesis by simp
  next
    case False
    with Cons.prems have o: "old \<in> set bs" by simp
    then have "book_id old \<in> book_id ` set bs" by (rule imageI)
    with Cons.prems(1) have "book_id b \<noteq> book_id old" by (metis distinct.simps(2) list.simps(9) list.set_map)
    moreover from Cons.prems(1) have "distinct (map book_id bs)" by simp
    note Cons.IH [OF this o]
    ultimately show ?thesis by simp
  qed
qed

lemma insert_book_keeps_ledger:
  assumes dist: "distinct (map shelf_id (shelves d))" and led: "ledger_consistent d"
    and ins: "insert_book d new = Inr d'"
  shows "ledger_consistent d'"
proof -
  let ?d1 = "d\<lparr>books := books d @ [new]\<rparr>"
  from ins have t: "adjust_if (book_type new = Physical) (book_shelf_id new) 1 ?d1 = Inr d'"
    by (auto simp: insert_book_def ebind_eq_Inr split: if_splits)
  have "off_by ?d1 (\<lambda>sid. - on_shelf new sid)"
    by (rule off_by_books [OF led]) (simp add: actual_sum)
  from adjust_if_off_by [OF _ this t] dist
  have "off_by d' (case book_shelf_id new of None \<Rightarrow> (\<lambda>sid. - on_shelf new sid)
          | Some s \<Rightarrow> if book_type new = Physical
              then (\<lambda>sid. - on_shelf new sid)(s := - on_shelf new s + 1)
              else (\<lambda>sid. - on_shelf new sid))"
    by simp
  then have "off_by d' (\<lambda>_. 0)"
    by (rule off_by_cong) (auto simp: on_shelf_def split: option.splits)
  then show ?thesis by (simp add: ledger_off_by)
qed


lemma ebind_Inr_right [simp]: "ebind m Inr = m"
  by (cases m) simp_all

lemma two_adjusts:
  assumes "distinct (map shelf_id (shelves d))" "off_by d g"
    and "ebind (adjust_if c1 s1 n1 d) (adjust_if c2 s2 n2) = Inr d'"
  shows "off_by d'
     (case s2 of None \<Rightarrow> (case s1 of None \<Rightarrow> g | Some x \<Rightarrow> if c1 then g(x := g x + n1) else g)
      | Some y \<Rightarrow>
          if c2 then (case s1 of None \<Rightarrow> g | Some x \<Rightarrow> if c1 then g(x := g x + n1) else g)
                    (y := (case s1 of None \<Rightarrow> g | Some x \<Rightarrow> if c1 then g(x := g x + n1) else g) y + n2)
          else (case s1 of None \<Rightarrow> g | Some x \<Rightarrow> if c1 then g(x := g x + n1) else g))"
proof -
  from assms(3) obtain d1 where a: "adjust_if c1 s1 n1 d = Inr d1"
    and b: "adjust_if c2 s2 n2 d1 = Inr d'"
    by (auto simp: ebind_eq_Inr)
  from adjust_if_off_by [OF assms(1,2) a]
  have o1: "off_by d1 (case s1 of None \<Rightarrow> g | Some x \<Rightarrow> if c1 then g(x := g x + n1) else g)"
    and d1: "distinct (map shelf_id (shelves d1))"
    by simp_all
  from adjust_if_off_by [OF d1 o1 b] show ?thesis by simp
qed

lemma update_book_row_keeps_ledger:
  assumes dist: "distinct (map shelf_id (shelves d))" "distinct (map book_id (books d))"
    and led: "ledger_consistent d"
    and old: "find_book d (book_id old) = Some old" "book_id new = book_id old"
    and ty: "\<not> (book_type old = Digital \<and> book_type new = Physical)"
    and upd: "update_book_row d old new = Inr d'"
  shows "ledger_consistent d'"
proof -
  let ?d1 = "d\<lparr>books := replace_book new (books d)\<rparr>"
  let ?g = "\<lambda>sid. on_shelf old sid - on_shelf new sid"
  from old(1) have oin: "old \<in> set (books d)"
    by (auto simp: find_book_def dest: find_SomeD)
  from upd have t: "update_shelf_count_on_book_change ?d1 (BookUpdate old new) = Inr d'"
    by (auto simp: update_book_row_def ebind_eq_Inr simp del: update_shelf_count_on_book_change.simps)
  have "off_by ?d1 (\<lambda>sid. - (- on_shelf old sid + on_shelf new sid))"
    by (rule off_by_books [OF led]) (simp add: actual_sum sum_replace_book [OF dist(2) oin old(2)])
  then have g: "off_by ?d1 ?g"
    by (rule off_by_cong) simp
  have d1: "distinct (map shelf_id (shelves ?d1))"
    using dist by simp
  have "off_by d' (\<lambda>_. 0)"
  proof (cases "book_type old = book_type new")
    case same: True
    show ?thesis
    proof (cases "book_shelf_id old \<noteq> book_shelf_id new \<and> book_type new = Physical")
      case True
      with t same have "ebind (adjust_if True (book_shelf_id old) (- 1) ?d1)
          (adjust_if True (book_shelf_id new) 1) = Inr d'"
        by simp
      from two_adjusts [OF d1 g this] show ?thesis
        by (rule off_by_cong) (use True same in \<open>auto simp: on_shelf_def split: option.splits\<close>)
    next
      case False
      with t same have "d' = ?d1" by auto
      moreover have "off_by ?d1 (\<lambda>_. 0)"
        using g by (rule off_by_cong) (use False same in \<open>auto simp: on_shelf_def\<close>)
      ultimately show ?thesis by simp
    qed
  next
    case False
    with ty have types: "book_type old = Physical" "book_type new = Digital"
      by (cases "book_type old"; cases "book_type new"; simp)+
    with t have "ebind (adjust_if True (book_shelf_id old) (- 1) ?d1)
          (adjust_if False (book_shelf_id new) 1) = Inr d'"
      by simp
    from two_adjusts [OF d1 g this] show ?thesis
      by (rule off_by_cong) (use types in \<open>auto simp: on_shelf_def split: option.splits\<close>)
  qed
  then show ?thesis by (simp add: ledger_off_by)
qed


lemma cascade_keeps_books:
  assumes "delete_loan_rows rows d = Inr d'"
    and "\<forall>l \<in> set rows. find (\<lambda>b. book_id b = loan_book_id l) (books d) = None"
  shows "books d' = books d \<and> shelves d' = shelves d"
  using assms
proof (induction rows arbitrary: d)
  case Nil
  then show ?case by simp
next
  case (Cons l rows)
  from Cons.prems(1) obtain d1 where a: "delete_loan_row d l = Inr d1"
    and b: "delete_loan_rows rows d1 = Inr d'"
    by (auto simp: ebind_eq_Inr)
  from a have "books_status_if (is_open l) (loan_book_id l) Available
      (d\<lparr>loans := filter (\<lambda>x. loan_id x \<noteq> loan_id l) (loans d)\<rparr>) = Inr d1"
    by (simp add: delete_loan_row_def)
  from books_status_if_Inr [OF this] Cons.prems(2)
  have d1: "books d1 = books d \<and> shelves d1 = shelves d"
    by (auto simp: find_book_def)
  with Cons.prems(2) have "\<forall>l \<in> set rows. find (\<lambda>b. book_id b = loan_book_id l) (books d1) = None"
    by simp
  from Cons.IH [OF b this] d1 show ?case by simp
qed

lemma delete_book_keeps_ledger:
  assumes dist: "distinct (map shelf_id (shelves d))" "distinct (map book_id (books d))"
    and led: "ledger_consistent d"
    and del: "delete_book_sql d bid = Inr r"
  shows "ledger_consistent (fst r)"
proof (cases "find_book d bid")
  case None
  with del led show ?thesis by (auto simp: delete_book_sql_def)
next
  case (Some old)
  let ?d0 = "d\<lparr>books := filter (\<lambda>b. book_id b \<noteq> bid) (books d)\<rparr>"
  from Some have oin: "old \<in> set (books d)" and oid: "book_id old = bid"
    by (auto simp: find_book_def dest: find_SomeD)
  from del Some obtain d1 where
    c: "delete_loan_rows (filter (\<lambda>l. loan_book_id l = bid) (loans d)) ?d0 = Inr d1"
    and t: "adjust_if (book_type old = Physical) (book_shelf_id old) (- 1) d1 = Inr (fst r)"
    by (auto simp: delete_book_sql_def ebind_eq_Inr)
  have gone: "\<forall>l \<in> set (filter (\<lambda>l. loan_book_id l = bid) (loans d)).
      find (\<lambda>b. book_id b = loan_book_id l) (books ?d0) = None"
    by (auto simp: find_None_iff)
  from cascade_keeps_books [OF c gone]
  have same: "books d1 = books ?d0" "shelves d1 = shelves ?d0" by simp_all
  have "off_by ?d0 (\<lambda>sid. - (- on_shelf old sid))"
    by (rule off_by_books [OF led])
      (use sum_remove_book [OF dist(2) oin] oid in \<open>simp add: actual_sum\<close>)
  then have "off_by d1 (\<lambda>sid. on_shelf old sid)"
    using same by (simp add: off_by_def actual_book_count_def)
  moreover from same dist have "distinct (map shelf_id (shelves d1))" by simp
  ultimately have "off_by (fst r)
      (case book_shelf_id old of None \<Rightarrow> (\<lambda>sid. on_shelf old sid)
       | Some s \<Rightarrow> if book_type old = Physical
           then (\<lambda>sid. on_shelf old sid)(s := on_shelf old s + - 1)
           else (\<lambda>sid. on_shelf old sid))"
    using adjust_if_off_by [OF _ _ t] by simp
  then have "off_by (fst r) (\<lambda>_. 0)"
    by (rule off_by_cong) (auto simp: on_shelf_def split: option.splits)
  then show ?thesis by (simp add: ledger_off_by)
qed

text \<open>
  Claim C1. Every insert, update and delete of a book should keep each shelf's
  \<^verbatim>\<open>current_book_count\<close> equal to the number of physical books on the shelf. The
  \<^verbatim>\<open>UPDATE\<close> branch of \<^verbatim>\<open>update_shelf_count_on_book_change\<close> does not: when a
  digital book becomes a physical book on a shelf, the shelf column and the type column
  both change, and both \<^verbatim>\<open>IF\<close> blocks add one. On the sample database, whose counts
  are right, \<^verbatim>\<open>BookRepository.update(2, {'book_type': 'physical', 'shelf_id': 2})\<close>
  succeeds and leaves shelf 2 with a recorded count of 2 for its one book. (The lemmas above
  show that this is the only change of a book that breaks the ledger.)
\<close>

theorem type_change_counts_shelf_twice:
  "ledger_consistent sample_db
   \<and> (let r = update_book sample_db 2
                \<lparr>new_book_type = Some Physical, new_shelf_id = Some (Some 2), new_status = None\<rparr>
      in fst r
       \<and> find_book (snd r) 2 =
           Some \<lparr>book_id = 2, book_type = Physical, book_shelf_id = Some 2, status = Available\<rparr>
       \<and> shelf_count (snd r) 2 = Some 2
       \<and> actual_book_count (snd r) 2 = 1
       \<and> \<not> ledger_consistent (snd r))"
  by code_simp

section \<open>Reconciliation\<close>

lemma recount_no_drift: "\<not> has_drift (d\<lparr>shelves := ss\<rparr>) (recount d s)"
  by (simp add: has_drift_def recount_def update_shelves_updated_at_def)

lemma recount_same:
  "\<not> has_drift d s \<Longrightarrow> s\<lparr>current_book_count := actual_book_count d (shelf_id s)\<rparr> = s"
  by (simp add: has_drift_def)

text \<open>
  Claim C9, as stated, has \<^verbatim>\<open>fix_capacity_counts\<close> answer the number of shelves it
  corrected. The statement is an \<^verbatim>\<open>UPDATE\<close> without \<^verbatim>\<open>WHERE\<close>: on the sample
  database nothing drifts, and the answer is 3, the number of shelves.
\<close>

theorem repair_counts_every_shelf:
  "validate_capacity_consistency sample_db = [] \<and> fix_capacity_counts sample_db = (3, sample_db)"
  by (simp add: validate_capacity_consistency_def fix_capacity_counts_def sample_db_def
      sample_shelves_def sample_books_def has_drift_def actual_book_count_def recount_def
      chk_current_book_count_valid_def update_shelves_updated_at_def)

text \<open>
  Claim C9, amended. \<^verbatim>\<open>validate_capacity_consistency\<close> returns exactly the shelves
  whose recorded count differs from the number of physical books on them, one row each,
  with both counts. \<^verbatim>\<open>fix_capacity_counts\<close> writes the recomputed count into every
  shelf (and with it the timestamp of the statement into \<^verbatim>\<open>updated_at\<close>), which
  corrects the drifted shelves and leaves the counts of the others as they were, changes
  nothing else, leaves no drift, and answers the number of rows written, which is the
  number of all shelves. When a recomputed count is above a shelf's capacity the
  statement is rejected: nothing changes and the answer is 0.
\<close>

theorem reconciliation_contract:
  "set (validate_capacity_consistency d) =
     (\<lambda>s. (shelf_id s, location_code s, actual_book_count d (shelf_id s), current_book_count s)) `
       {s \<in> set (shelves d). actual_book_count d (shelf_id s) \<noteq> current_book_count s}
   \<and> length (validate_capacity_consistency d) = length (filter (has_drift d) (shelves d))
   \<and> (list_all chk_current_book_count_valid (map (recount d) (shelves d)) \<longrightarrow>
        fst (fix_capacity_counts d) = length (shelves d)
      \<and> shelves (snd (fix_capacity_counts d)) =
          map (\<lambda>s. s\<lparr>current_book_count := actual_book_count d (shelf_id s),
                      updated_at := current_timestamp d\<rparr>) (shelves d)
      \<and> (\<forall>s \<in> set (shelves d). \<not> has_drift d s \<longrightarrow>
            s\<lparr>current_book_count := actual_book_count d (shelf_id s)\<rparr> = s)
      \<and> books (snd (fix_capacity_counts d)) = books d
      \<and> students (snd (fix_capacity_counts d)) = students d
      \<and> loans (snd (fix_capacity_counts d)) = loans d
      \<and> validate_capacity_consistency (snd (fix_capacity_counts d)) = [])
   \<and> (\<not> list_all chk_current_book_count_valid (map (recount d) (shelves d)) \<longrightarrow>
        fix_capacity_counts d = (0, d))"
proof -
  have a: "set (validate_capacity_consistency d) =
     (\<lambda>s. (shelf_id s, location_code s, actual_book_count d (shelf_id s), current_book_count s)) `
       {s \<in> set (shelves d). actual_book_count d (shelf_id s) \<noteq> current_book_count s}"
    by (auto simp: validate_capacity_consistency_def has_drift_def)
  have b: "length (validate_capacity_consistency d) = length (filter (has_drift d) (shelves d))"
    by (simp add: validate_capacity_consistency_def)
  have c: "filter (has_drift (d\<lparr>shelves := ss\<rparr>)) (map (recount d) (shelves d)) = []" for ss
    by (simp add: filter_empty_conv recount_no_drift)
  have e: "validate_capacity_consistency (d\<lparr>shelves := map (recount d) (shelves d)\<rparr>) = []"
    by (simp add: validate_capacity_consistency_def c)
  have f: "map (recount d) (shelves d) =
      map (\<lambda>s. s\<lparr>current_book_count := actual_book_count d (shelf_id s),
                  updated_at := current_timestamp d\<rparr>) (shelves d)"
    by (simp add: recount_def update_shelves_updated_at_def)
  have g: "\<forall>s \<in> set (shelves d). \<not> has_drift d s \<longrightarrow>
            s\<lparr>current_book_count := actual_book_count d (shelf_id s)\<rparr> = s"
    using recount_same [of d] by simp
  have ok: "list_all chk_current_book_count_valid (map (recount d) (shelves d)) \<Longrightarrow>
      fix_capacity_counts d = (length (shelves d), d\<lparr>shelves := map (recount d) (shelves d)\<rparr>)"
    by (simp add: fix_capacity_counts_def Let_def)
  have bad: "\<not> list_all chk_current_book_count_valid (map (recount d) (shelves d)) \<Longrightarrow>
      fix_capacity_counts d = (0, d)"
    by (simp add: fix_capacity_counts_def Let_def)
  show ?thesis
  proof (intro conjI impI)
    assume v: "list_all chk_current_book_count_valid (map (recount d) (shelves d))"
    show "validate_capacity_consistency (snd (fix_capacity_counts d)) = []"
      by (simp add: ok [OF v] e)
    show "shelves (snd (fix_capacity_counts d)) =
          map (\<lambda>s. s\<lparr>current_book_count := actual_book_count d (shelf_id s),
                      updated_at := current_timestamp d\<rparr>) (shelves d)"
      by (simp add: ok [OF v] f)
  qed (simp_all add: a b g ok bad)
qed

text \<open>
  On the drifted sample database the two wrong shelves are reported in the order of their
  location codes and the repair restores the sample database; on the database with the
  overfull shelf the repair is rejected.
\<close>

theorem reconciliation_contract_witness:
  "list_all chk_current_book_count_valid (map (recount drifted_db) (shelves drifted_db))
   \<and> validate_capacity_consistency drifted_db = [(1, ''A1'', 1, 5), (3, ''C1'', 1, 0)]
   \<and> fix_capacity_counts drifted_db = (3, sample_db)
   \<and> \<not> list_all chk_current_book_count_valid (map (recount overfull_db) (shelves overfull_db))
   \<and> fix_capacity_counts overfull_db = (0, overfull_db)"
  using reconciliation_contract [of drifted_db] reconciliation_contract [of overfull_db]
  by (simp add: validate_capacity_consistency_def fix_capacity_counts_def drifted_db_def
      overfull_db_def sample_db_def sample_shelves_def sample_books_def has_drift_def
      actual_book_count_def recount_def chk_current_book_count_valid_def set_shelf_count_def
      update_shelves_updated_at_def)

section \<open>Book status and the loan life cycle\<close>



section \<open>Loan creation\<close>

text \<open>
  Claim C3. Loan creation should succeed for an active student with fewer than 5 open
  loans and an available book, and fail with the error of the condition that does not
  hold. \<^verbatim>\<open>validate_loan_creation\<close> has the tests for it, but raises
  \<^verbatim>\<open>column reference "book_type" is ambiguous\<close> at its first statement, for every
  row. On the sample database, on day 100, the active student 1, who has no loan, asks for
  the available book 2: the \<^verbatim>\<open>INSERT\<close> is refused and both \<^verbatim>\<open>create_loan\<close>
  methods answer \<^verbatim>\<open>None\<close>. The requests the claim names are refused with the same
  error and not with their own: for the inactive student 2, for the unknown book 9 and the
  unknown student 9, for book 2 when it is lent, and for a sixth loan of the student who
  has five.
\<close>

theorem loan_creation_raises_ambiguity:
  "map_option status (find_book sample_db 2) = Some Available
   \<and> map_option student_status (find_student sample_db 1) = Some StudentActive
   \<and> active_loans_count sample_db 1 = 0
   \<and> insert_loan 100 sample_db 1
        \<lparr>new_book_id = 2, new_student_id = 1, new_loan_date = 100,
         new_estimated_return_date = None\<rparr> = Inl AmbiguousColumn
   \<and> create_loan 100 sample_db 1 2 1 None None = (None, sample_db)
   \<and> repository_create_loan 100 sample_db 1 2 1 None None = (None, sample_db)
   \<and> map_option student_status (find_student sample_db 2) = Some StudentInactive
   \<and> insert_loan 100 sample_db 1
        \<lparr>new_book_id = 2, new_student_id = 2, new_loan_date = 100,
         new_estimated_return_date = None\<rparr> = Inl AmbiguousColumn
   \<and> find_book sample_db 9 = None
   \<and> insert_loan 100 sample_db 1
        \<lparr>new_book_id = 9, new_student_id = 1, new_loan_date = 100,
         new_estimated_return_date = None\<rparr> = Inl AmbiguousColumn
   \<and> find_student sample_db 9 = None
   \<and> insert_loan 100 sample_db 1
        \<lparr>new_book_id = 2, new_student_id = 9, new_loan_date = 100,
         new_estimated_return_date = None\<rparr> = Inl AmbiguousColumn
   \<and> map_option status (find_book lent_db 2) = Some Loaned
   \<and> insert_loan 100 lent_db 2
        \<lparr>new_book_id = 2, new_student_id = 1, new_loan_date = 100,
         new_estimated_return_date = None\<rparr> = Inl AmbiguousColumn
   \<and> active_loans_count five_loans_db 1 = 5
   \<and> map_option status (find_book five_loans_db 16) = Some Available
   \<and> insert_loan 100 five_loans_db 20
        \<lparr>new_book_id = 16, new_student_id = 1, new_loan_date = 100,
         new_estimated_return_date = None\<rparr> = Inl AmbiguousColumn"
  by code_simp

text \<open>
  \<^verbatim>\<open>calculate_estimated_return_date\<close> by itself: 14 days for a physical book, 7 for
  a digital one.
\<close>

lemma calculate_estimated_return_date_days:
  "calculate_estimated_return_date ld Physical = ld + 14
   \<and> calculate_estimated_return_date ld Digital = ld + 7"
  by (simp add: calculate_estimated_return_date_def default_loan_days_def digital_loan_days_def)

text \<open>
  Claim C7. A loan created without a due date should be due 14 days after the loan date
  for a physical book and 7 days after it for a digital one.
  \<^verbatim>\<open>calculate_estimated_return_date\<close> computes these dates, but no loan receives
  them. \<^verbatim>\<open>LoansTableManager.create_loan\<close> leaves the date to
  \<^verbatim>\<open>validate_loan_creation\<close>, which raises at its first statement, long before the
  call of that function: on the sample database, on day 100, neither the digital book 2
  nor the physical book 1 is lent, and no row is stored.
  \<^verbatim>\<open>LoanRepository.create_loan\<close> does not leave the date to the trigger: for the
  digital book 2 it puts day 114 into the statement, where the function says 107; its
  \<^verbatim>\<open>INSERT\<close> is refused by the trigger as well.
\<close>

theorem default_due_date_never_stored:
  "calculate_estimated_return_date 100 Physical = 114
   \<and> calculate_estimated_return_date 100 Digital = 107
   \<and> map_option book_type (find_book sample_db 1) = Some Physical
   \<and> map_option book_type (find_book sample_db 2) = Some Digital
   \<and> create_loan 100 sample_db 1 1 1 None None = (None, sample_db)
   \<and> create_loan 100 sample_db 1 2 1 None None = (None, sample_db)
   \<and> new_estimated_return_date (repository_loan_params 100 2 1 None None) = Some 114
   \<and> repository_create_loan 100 sample_db 1 2 1 None None = (None, sample_db)
   \<and> loans sample_db = []"
  by code_simp

section \<open>Returning a book\<close>

text \<open>
  Claim C5. \<^verbatim>\<open>return_book\<close> should succeed on every loan that is active or
  overdue. Its \<^verbatim>\<open>UPDATE\<close> of the loan fires
  \<^verbatim>\<open>update_book_status_on_loan_change\<close>, which sets the status of the book with an
  \<^verbatim>\<open>UPDATE\<close> of \<^verbatim>\<open>books\<close>; and \<^verbatim>\<open>validate_book_shelf_placement\<close> runs
  before every update of a row of \<^verbatim>\<open>books\<close>: of a physical book it asks that the
  shelf the book already stands on has room for one more. In the database with the full
  shelf the keys, the checks and the ledger are in order; loan 2 is active, made on day
  100, and its book 3 stands alone on shelf 3, of capacity 1. The status update is
  refused, and \<^verbatim>\<open>return_book\<close>, on day 120 or with the return date 110, answers
  \<^verbatim>\<open>False\<close> and changes nothing. Likewise on the shelf of capacity 2 that holds
  the lent book 4: the loan can be returned as long as the shelf has room, and no longer
  once \<^verbatim>\<open>BookRepository.create\<close> has put book 5 on the shelf.
\<close>

theorem return_refused_on_full_shelf:
  "loans_keyed (loans full_shelf_db) \<and> loans_checked 120 (loans full_shelf_db)
   \<and> ledger_consistent full_shelf_db
   \<and> find_loan full_shelf_db 2 = Some full_shelf_loan
   \<and> loan_status full_shelf_loan = Active \<and> loan_date full_shelf_loan = 100
   \<and> find_book full_shelf_db 3 =
        Some \<lparr>book_id = 3, book_type = Physical, book_shelf_id = Some 3, status = Loaned\<rparr>
   \<and> shelf_count full_shelf_db 3 = Some 1
   \<and> map_option total_capacity (find_shelf full_shelf_db 3) = Some 1
   \<and> set_book_status full_shelf_db 3 Available = Inl ShelfFull
   \<and> return_book 120 full_shelf_db 2 None = (False, full_shelf_db)
   \<and> return_book 120 full_shelf_db 2 (Some 110) = (False, full_shelf_db)
   \<and> fst (return_book 120 shared_shelf_db 4 None)
   \<and> (let r = create_book shared_shelf_db second_book
       in fst r \<and> shelf_count (snd r) 4 = Some 2
        \<and> ledger_consistent (snd r) \<and> loans_keyed (loans (snd r))
        \<and> loans_checked 120 (loans (snd r))
        \<and> map_option loan_status (find_loan (snd r) 4) = Some Active
        \<and> return_book 120 (snd r) 4 None = (False, snd r))"
  by code_simp

text \<open>
  The rest of \<^verbatim>\<open>return_book\<close> is as the claim has it. The method fails on an
  unknown loan. On a loan that exists it succeeds only when the loan is active or overdue
  and the return date (today by default) is not before the loan date, which
  \<^verbatim>\<open>chk_actual_return_after_loan\<close> asks for; and where the status update of the book
  is accepted, it does succeed under these conditions when the stored row satisfies its
  \<^verbatim>\<open>CHECK\<close> constraints. On success the loan is \<^verbatim>\<open>returned\<close> with that return
  date and its book is available. On failure nothing has changed.
\<close>

lemma return_book_outcomes:
  "(find_loan d lid = None \<longrightarrow> return_book today d lid return_date = (False, d))
   \<and> (\<forall>l. find_loan d lid = Some l \<longrightarrow>
        (let rd = (case return_date of None \<Rightarrow> today | Some r \<Rightarrow> r);
             r = return_book today d lid return_date
         in (fst r \<longrightarrow> is_open l \<and> loan_date l \<le> rd
               \<and> (\<exists>w. set_book_status d (loan_book_id l) Available = Inr w)
               \<and> find_loan (snd r) lid =
                   Some (l\<lparr>loan_status := Returned, actual_return_date := Some rd\<rparr>)
               \<and> (find_book (snd r) (loan_book_id l) = None) = (find_book d (loan_book_id l) = None)
               \<and> (\<forall>b. find_book (snd r) (loan_book_id l) = Some b \<longrightarrow> status b = Available))
          \<and> (list_all snd (loan_checks today l) \<longrightarrow> is_open l \<longrightarrow> loan_date l \<le> rd \<longrightarrow>
               (\<exists>w. set_book_status d (loan_book_id l) Available = Inr w) \<longrightarrow> fst r)
          \<and> (\<not> fst r \<longrightarrow> snd r = d)))"
proof (intro conjI allI impI)
  assume "find_loan d lid = None"
  then show "return_book today d lid return_date = (False, d)"
    by (simp add: return_book_def update_loan_by_id_def rows_result_def)
next
  fix l assume l: "find_loan d lid = Some l"
  define rd where "rd = (case return_date of None \<Rightarrow> today | Some r \<Rightarrow> r)"
  define new where "new = l\<lparr>loan_status := Returned, actual_return_date := Some rd\<rparr>"
  define d1 where "d1 = d\<lparr>loans := replace_loan new (loans d)\<rparr>"
  from l have lid: "loan_id l = lid"
    by (auto simp: find_loan_def dest: find_SomeD)
  have closed: "return_book today d lid return_date = (False, d)" if "\<not> is_open l"
    using that l by (simp add: return_book_def update_loan_by_id_def rows_result_def)
  have run: "return_book today d lid return_date =
      (case ebind (check_all (loan_checks today new))
              (\<lambda>_. books_status_if True (loan_book_id l) Available d1) of
         Inl e \<Rightarrow> (False, d) | Inr d' \<Rightarrow> (True, d'))" if "is_open l"
    using that l return_row [OF that, of today d rd]
    by (simp add: return_book_def update_loan_by_id_def rows_result_def rd_def new_def d1_def
        ebind_def split: sum.splits)
  have wr: "books_status_if True (loan_book_id l) Available d1 =
      (case set_book_status d (loan_book_id l) Available of
         Inl e \<Rightarrow> Inl e | Inr w \<Rightarrow> Inr (fst w\<lparr>loans := replace_loan new (loans d)\<rparr>))"
    by (simp add: books_status_if_def d1_def set_book_status_loans split: sum.splits)
  have success: "is_open l \<and> loan_date l \<le> rd
      \<and> (\<exists>w. set_book_status d (loan_book_id l) Available = Inr w)
      \<and> find_loan d' lid = Some new
      \<and> (find_book d' (loan_book_id l) = None) = (find_book d (loan_book_id l) = None)
      \<and> (\<forall>b. find_book d' (loan_book_id l) = Some b \<longrightarrow> status b = Available)"
    if r: "return_book today d lid return_date = (True, d')" for d'
  proof -
    from r closed have o: "is_open l" by auto
    from r run [OF o] have c: "check_all (loan_checks today new) = Inr ()"
      and b: "books_status_if True (loan_book_id l) Available d1 = Inr d'"
      by (auto simp: ebind_def split: sum.splits)
    from c have "loan_date l \<le> rd"
      by (simp add: check_all_Inr loan_checks_def new_def)
    moreover from b wr have "\<exists>w. set_book_status d (loan_book_id l) Available = Inr w"
      by (auto split: sum.splits)
    moreover from books_status_if_Inr [OF b] l lid
    have "find_loan d' lid = Some new
      \<and> (find_book d' (loan_book_id l) = None) = (find_book d (loan_book_id l) = None)
      \<and> (\<forall>b. find_book d' (loan_book_id l) = Some b \<longrightarrow> status b = Available)"
      by (auto simp: d1_def find_loan_def find_book_def find_replace_loan find_replace_book new_def
          dest: find_SomeD)
    ultimately show ?thesis using o by simp
  qed
  have enough: "fst (return_book today d lid return_date)"
    if "list_all snd (loan_checks today l)" "is_open l" "loan_date l \<le> rd"
      "set_book_status d (loan_book_id l) Available = Inr w" for w
    using that run [OF that(2)] wr returned_checks [OF that(1), of rd]
    by (simp add: check_all_Inr [symmetric, of _ "()"] new_def split: sum.splits)
  have failed: "snd (return_book today d lid return_date) = d"
    if "\<not> fst (return_book today d lid return_date)"
    using that closed run by (cases "is_open l") (auto split: sum.splits)
  show "let rd = (case return_date of None \<Rightarrow> today | Some r \<Rightarrow> r);
             r = return_book today d lid return_date
         in (fst r \<longrightarrow> is_open l \<and> loan_date l \<le> rd
               \<and> (\<exists>w. set_book_status d (loan_book_id l) Available = Inr w)
               \<and> find_loan (snd r) lid =
                   Some (l\<lparr>loan_status := Returned, actual_return_date := Some rd\<rparr>)
               \<and> (find_book (snd r) (loan_book_id l) = None) = (find_book d (loan_book_id l) = None)
               \<and> (\<forall>b. find_book (snd r) (loan_book_id l) = Some b \<longrightarrow> status b = Available))
          \<and> (list_all snd (loan_checks today l) \<longrightarrow> is_open l \<longrightarrow> loan_date l \<le> rd \<longrightarrow>
               (\<exists>w. set_book_status d (loan_book_id l) Available = Inr w) \<longrightarrow> fst r)
          \<and> (\<not> fst r \<longrightarrow> snd r = d)"
    unfolding Let_def rd_def [symmetric] new_def [symmetric]
    using success [of "snd (return_book today d lid return_date)"] enough failed
    by (cases "return_book today d lid return_date") auto
qed

text \<open>
  On the lent sample database, returning loan 1 on day 120 gives back the sample database
  with the returned loan; a second return of the same loan fails, and so does the return of
  the unknown loan 9.
\<close>

lemma return_book_outcomes_example:
  "find_loan lent_db 1 = Some sample_loan
   \<and> list_all snd (loan_checks 120 sample_loan) \<and> is_open sample_loan
   \<and> loan_date sample_loan \<le> 120
   \<and> return_book 120 lent_db 1 None =
       (True, sample_db\<lparr>loans :=
          [sample_loan\<lparr>loan_status := Returned, actual_return_date := Some 120\<rparr>]\<rparr>)
   \<and> map_option status (find_book (snd (return_book 120 lent_db 1 None)) 2) = Some Available
   \<and> \<not> fst (return_book 121 (snd (return_book 120 lent_db 1 None)) 1 None)
   \<and> find_loan lent_db 9 = None \<and> return_book 120 lent_db 9 None = (False, lent_db)"
proof -
  have a: "find_loan lent_db 1 = Some sample_loan"
    by code_simp
  have unknown: "find_loan lent_db 9 = None"
    by code_simp
  from return_book_outcomes [of lent_db 9 120 None, THEN conjunct1, rule_format, OF unknown]
  have u: "return_book 120 lent_db 9 None = (False, lent_db)" .
  have b: "list_all snd (loan_checks 120 sample_loan) \<and> is_open sample_loan
      \<and> loan_date sample_loan \<le> 120"
    by code_simp
  have c: "set_book_status lent_db 2 Available = Inr (sample_db\<lparr>loans := [sample_loan]\<rparr>, 1)
      \<and> loan_book_id sample_loan = 2"
    by code_simp
  have e: "return_book 120 lent_db 1 None =
       (True, sample_db\<lparr>loans :=
          [sample_loan\<lparr>loan_status := Returned, actual_return_date := Some 120\<rparr>]\<rparr>)"
    by code_simp
  have f: "find_loan (sample_db\<lparr>loans :=
          [sample_loan\<lparr>loan_status := Returned, actual_return_date := Some 120\<rparr>]\<rparr>) 1 =
        Some (sample_loan\<lparr>loan_status := Returned, actual_return_date := Some 120\<rparr>)
      \<and> \<not> is_open (sample_loan\<lparr>loan_status := Returned, actual_return_date := Some 120\<rparr>)"
    by code_simp
  from return_book_outcomes [of lent_db 1 120 None, THEN conjunct2, rule_format, OF a] b c
  have "fst (return_book 120 lent_db 1 None)
      \<and> (\<forall>bk. find_book (snd (return_book 120 lent_db 1 None)) 2 = Some bk \<longrightarrow>
            status bk = Available)
      \<and> find_book (snd (return_book 120 lent_db 1 None)) 2 \<noteq> None"
    by (auto simp: Let_def find_book_def lent_db_def)
  then have g: "map_option status (find_book (snd (return_book 120 lent_db 1 None)) 2) =
      Some Available"
    by auto
  from return_book_outcomes [of "sample_db\<lparr>loans :=
          [sample_loan\<lparr>loan_status := Returned, actual_return_date := Some 120\<rparr>]\<rparr>" 1 121 None,
       THEN conjunct2, rule_format, OF f [THEN conjunct1]] f
  have "\<not> fst (return_book 121 (sample_db\<lparr>loans :=
          [sample_loan\<lparr>loan_status := Returned, actual_return_date := Some 120\<rparr>]\<rparr>) 1 None)"
    by (auto simp: Let_def)
  with a b e g unknown u show ?thesis
    by simp
qed

section \<open>Moving a book between shelves\<close>

text \<open>
  One accepted move of a physical book from shelf \<open>x\<close> to another shelf \<open>y\<close>: the
  book row, the decrement, the increment.
\<close>

lemma move_ok:
  assumes bk: "find_book d bid = Some bk" "book_type bk = Physical" "book_shelf_id bk = Some x"
    and xy: "x \<noteq> y"
    and sx: "find_shelf d x = Some sx" "1 \<le> current_book_count sx"
      "current_book_count sx \<le> total_capacity sx + 1"
    and sy: "find_shelf d y = Some sy" "0 \<le> current_book_count sy + 1"
      "current_book_count sy < total_capacity sy"
  shows "move_book_to_shelf d bid y =
     (True, d\<lparr>books := replace_book (bk\<lparr>book_shelf_id := Some y\<rparr>) (books d),
              shelves := set_shelf_count (current_timestamp d) y (current_book_count sy + 1)
                           (set_shelf_count (current_timestamp d) x (current_book_count sx - 1)
                              (shelves d))\<rparr>)"
proof -
  let ?now = "current_timestamp d"
  let ?new = "bk\<lparr>book_shelf_id := Some y\<rparr>"
  let ?d1 = "d\<lparr>books := replace_book ?new (books d)\<rparr>"
  let ?d2 = "?d1\<lparr>shelves := set_shelf_count ?now x (current_book_count sx - 1) (shelves d)\<rparr>"
  have v: "validate_book_shelf_placement d ?new = Inr ()"
    using bk sy by (simp add: validate_book_shelf_placement_def check_shelf_capacity_def)
  have c: "book_constraints d ?new = Inr ()"
    using bk sy by (simp add: book_constraints_def)
  have fx: "int4 (current_book_count sx) \<Longrightarrow> int4 (current_book_count sx + - 1)"
    using sx by (simp add: int4_def)
  have fy: "int4 (total_capacity sy) \<Longrightarrow> int4 (current_book_count sy + 1)"
    using sy by (simp add: int4_def)
  have dec: "update_shelf_book_count ?d1 x (- 1) = Inr ?d2"
    using sx fx by (auto simp: update_shelf_book_count_def find_shelf_def Let_def)
  have "find_shelf ?d2 y = Some sy"
    using sy xy by (simp add: find_shelf_def find_set_shelf_count)
  then have inc: "update_shelf_book_count ?d2 y 1 =
      Inr (?d2\<lparr>shelves := set_shelf_count ?now y (current_book_count sy + 1) (shelves ?d2)\<rparr>)"
    using sy fy by (auto simp: update_shelf_book_count_def Let_def)
  have t: "update_shelf_count_on_book_change ?d1 (BookUpdate bk ?new) =
      Inr (?d2\<lparr>shelves := set_shelf_count ?now y (current_book_count sy + 1) (shelves ?d2)\<rparr>)"
    using bk xy dec inc by (simp add: adjust_if_def)
  have "update_book_row d bk ?new =
      Inr (?d2\<lparr>shelves := set_shelf_count ?now y (current_book_count sy + 1) (shelves ?d2)\<rparr>)"
    using v c t by (simp add: update_book_row_def)
  then show ?thesis
    using bk by (simp add: move_book_to_shelf_def update_books_where_def rows_result_def)
qed

text \<open>
  Claim C8, as stated, speaks of every physical book. Book 1 of the sample database already
  stands on shelf 1; shelves 1 and 2 have free capacity. Assigning the book to shelf 1 (which
  changes nothing) and then to shelf 2 leaves shelf 1 one below its count before the first
  assignment.
\<close>

theorem assign_from_first_shelf_lowers_it:
  "check_shelf_capacity sample_db 1 = Inr True \<and> check_shelf_capacity sample_db 2 = Inr True
   \<and> (let r1 = move_book_to_shelf sample_db 1 1; r2 = move_book_to_shelf (snd r1) 1 2
       in fst r1 \<and> fst r2
        \<and> shelf_count sample_db 1 = Some 1 \<and> shelf_count (snd r2) 1 = Some 0
        \<and> shelf_count sample_db 2 = Some 0 \<and> shelf_count (snd r2) 2 = Some 1)"
  by code_simp

text \<open>
  Claim C8, amended. For a physical book on a shelf \<open>x\<close> other than \<open>a\<close> and \<open>b\<close>,
  with \<open>a\<close> and \<open>b\<close> distinct shelves that have free capacity (all three counts within
  their bounds, and the count of \<open>x\<close> at least one): assigning the book to \<open>a\<close> and then
  to \<open>b\<close> succeeds both times, leaves the count of \<open>a\<close> at its value before the first
  assignment and the count of \<open>b\<close> one above, and takes one from \<open>x\<close>. If the increment
  of the new shelf fails after the decrement of the old one, the trigger raises, and a move
  that fails leaves the database, so every count, unchanged.
\<close>

theorem assign_shelf_twice:
  "(\<forall>bk x sx sa sb.
      find_book d bid = Some bk \<longrightarrow> book_type bk = Physical \<longrightarrow> book_shelf_id bk = Some x \<longrightarrow>
      x \<noteq> a \<longrightarrow> x \<noteq> b \<longrightarrow> a \<noteq> b \<longrightarrow>
      find_shelf d x = Some sx \<longrightarrow> 1 \<le> current_book_count sx \<longrightarrow>
      current_book_count sx \<le> total_capacity sx \<longrightarrow>
      find_shelf d a = Some sa \<longrightarrow> 0 \<le> current_book_count sa \<longrightarrow>
      current_book_count sa < total_capacity sa \<longrightarrow>
      find_shelf d b = Some sb \<longrightarrow> 0 \<le> current_book_count sb \<longrightarrow>
      current_book_count sb < total_capacity sb \<longrightarrow>
      (let r1 = move_book_to_shelf d bid a; r2 = move_book_to_shelf (snd r1) bid b
       in fst r1 \<and> fst r2
        \<and> shelf_count (snd r1) a = Some (current_book_count sa + 1)
        \<and> shelf_count (snd r2) a = Some (current_book_count sa)
        \<and> shelf_count (snd r2) b = Some (current_book_count sb + 1)
        \<and> shelf_count (snd r2) x = Some (current_book_count sx - 1)
        \<and> map_option book_shelf_id (find_book (snd r2) bid) = Some (Some b)))
   \<and> (\<forall>old new x y d2 e.
        book_shelf_id old = Some x \<longrightarrow> book_shelf_id new = Some y \<longrightarrow> x \<noteq> y \<longrightarrow>
        book_type new = Physical \<longrightarrow>
        update_shelf_book_count d x (- 1) = Inr d2 \<longrightarrow> update_shelf_book_count d2 y 1 = Inl e \<longrightarrow>
        update_shelf_count_on_book_change d (BookUpdate old new) = Inl e)
   \<and> (\<forall>y. \<not> fst (move_book_to_shelf d bid y) \<longrightarrow> snd (move_book_to_shelf d bid y) = d)"
proof (intro conjI allI impI)
  fix y assume "\<not> fst (move_book_to_shelf d bid y)"
  then show "snd (move_book_to_shelf d bid y) = d"
    by (auto simp: move_book_to_shelf_def rows_result_def update_books_where_def ebind_def
        split: sum.splits option.splits if_splits)
next
  fix old new :: book and x y d2 e
  assume "book_shelf_id old = Some x" "book_shelf_id new = Some y" "x \<noteq> y"
    "book_type new = Physical"
    "update_shelf_book_count d x (- 1) = Inr d2" "update_shelf_book_count d2 y 1 = Inl e"
  then show "update_shelf_count_on_book_change d (BookUpdate old new) = Inl e"
    by (simp add: adjust_if_def)
next
  fix bk x sx sa sb
  assume bk: "find_book d bid = Some bk" "book_type bk = Physical" "book_shelf_id bk = Some x"
    and ne: "x \<noteq> a" "x \<noteq> b" "a \<noteq> b"
    and sx: "find_shelf d x = Some sx" "1 \<le> current_book_count sx"
      "current_book_count sx \<le> total_capacity sx"
    and sa: "find_shelf d a = Some sa" "0 \<le> current_book_count sa"
      "current_book_count sa < total_capacity sa"
    and sb: "find_shelf d b = Some sb" "0 \<le> current_book_count sb"
      "current_book_count sb < total_capacity sb"
  let ?b1 = "bk\<lparr>book_shelf_id := Some a\<rparr>"
  let ?now = "current_timestamp d"
  let ?s1 = "set_shelf_count ?now a (current_book_count sa + 1)
               (set_shelf_count ?now x (current_book_count sx - 1) (shelves d))"
  let ?d1 = "d\<lparr>books := replace_book ?b1 (books d), shelves := ?s1\<rparr>"
  from bk have id: "book_id bk = bid"
    by (auto simp: find_book_def dest: find_SomeD)
  have m1: "move_book_to_shelf d bid a = (True, ?d1)"
    using move_ok [OF bk ne(1) sx(1,2) _ sa(1)] sx sa by simp
  have b1: "find_book ?d1 bid = Some ?b1"
    using bk id by (simp add: find_book_def find_replace_book)
  have a1: "find_shelf ?d1 a =
      Some (sa\<lparr>current_book_count := current_book_count sa + 1, updated_at := ?now\<rparr>)"
    using sa ne by (simp add: find_shelf_def find_set_shelf_count)
  have x1: "find_shelf ?d1 x =
      Some (sx\<lparr>current_book_count := current_book_count sx - 1, updated_at := ?now\<rparr>)"
    using sx ne by (simp add: find_shelf_def find_set_shelf_count)
  have sb1: "find_shelf ?d1 b = Some sb"
    using sb ne by (simp add: find_shelf_def find_set_shelf_count)
  let ?b2 = "?b1\<lparr>book_shelf_id := Some b\<rparr>"
  let ?s2 = "set_shelf_count ?now b (current_book_count sb + 1)
               (set_shelf_count ?now a (current_book_count sa) ?s1)"
  let ?d2 = "?d1\<lparr>books := replace_book ?b2 (books ?d1), shelves := ?s2\<rparr>"
  have m2: "move_book_to_shelf ?d1 bid b = (True, ?d2)"
    using move_ok [OF b1 _ _ ne(3) a1 _ _ sb1] bk sa sb by simp
  have "shelf_count ?d2 a = Some (current_book_count sa)"
    "shelf_count ?d2 b = Some (current_book_count sb + 1)"
    "shelf_count ?d2 x = Some (current_book_count sx - 1)"
    "shelf_count ?d1 a = Some (current_book_count sa + 1)"
    using sa sb sx ne
    by (simp_all add: shelf_count_def find_shelf_def find_set_shelf_count)
  moreover have "map_option book_shelf_id (find_book ?d2 bid) = Some (Some b)"
    using bk id by (simp add: find_book_def find_replace_book)
  ultimately show "let r1 = move_book_to_shelf d bid a; r2 = move_book_to_shelf (snd r1) bid b
       in fst r1 \<and> fst r2
        \<and> shelf_count (snd r1) a = Some (current_book_count sa + 1)
        \<and> shelf_count (snd r2) a = Some (current_book_count sa)
        \<and> shelf_count (snd r2) b = Some (current_book_count sb + 1)
        \<and> shelf_count (snd r2) x = Some (current_book_count sx - 1)
        \<and> map_option book_shelf_id (find_book (snd r2) bid) = Some (Some b)"
    using m1 m2 by (simp add: Let_def)
qed

text \<open>
  On the sample database: book 3 goes from shelf 3 to shelf 1 and then to shelf 2. For the
  rollback: the trigger alone, asked to move book 1 to the full shelf 3, decrements shelf 1
  and then raises, and the move changes nothing.
\<close>

theorem assign_shelf_twice_witness:
  "(let r1 = move_book_to_shelf sample_db 3 1; r2 = move_book_to_shelf (snd r1) 3 2
    in fst r1 \<and> fst r2
     \<and> shelf_count sample_db 1 = Some 1 \<and> shelf_count (snd r1) 1 = Some 2
     \<and> shelf_count (snd r2) 1 = Some 1
     \<and> shelf_count sample_db 2 = Some 0 \<and> shelf_count (snd r2) 2 = Some 1
     \<and> shelf_count (snd r2) 3 = Some 0)
   \<and> update_shelf_count_on_book_change sample_db
        (BookUpdate \<lparr>book_id = 1, book_type = Physical, book_shelf_id = Some 1, status = Available\<rparr>
           \<lparr>book_id = 1, book_type = Physical, book_shelf_id = Some 3, status = Available\<rparr>) =
       Inl CapacityExceeded
   \<and> move_book_to_shelf sample_db 1 3 = (False, sample_db)"
proof -
  have bk: "find_book sample_db 3 =
      Some \<lparr>book_id = 3, book_type = Physical, book_shelf_id = Some 3, status = Available\<rparr>"
    by code_simp
  have sh: "find_shelf sample_db 3 =
        Some \<lparr>shelf_id = 3, location_code = ''C1'', total_capacity = 1, current_book_count = 1,
              updated_at = 0\<rparr>
      \<and> find_shelf sample_db 1 =
        Some \<lparr>shelf_id = 1, location_code = ''A1'', total_capacity = 10, current_book_count = 1,
              updated_at = 0\<rparr>
      \<and> find_shelf sample_db 2 =
        Some \<lparr>shelf_id = 2, location_code = ''B1'', total_capacity = 10, current_book_count = 0,
              updated_at = 0\<rparr>"
    by code_simp
  have dec: "\<exists>d2. update_shelf_book_count sample_db 1 (- 1) = Inr d2
      \<and> update_shelf_book_count d2 3 1 = Inl CapacityExceeded"
    by (simp add: update_shelf_book_count_def find_shelf_def sample_db_def sample_shelves_def
        set_shelf_count_def update_shelves_updated_at_def int4_def)
  have no: "\<not> fst (move_book_to_shelf sample_db 1 3)"
    by code_simp
  note w = assign_shelf_twice [of sample_db 3 1 2]
  note w1 = assign_shelf_twice [of sample_db 1]
  from w [THEN conjunct1, rule_format, OF bk _ _ _ _ _ sh [THEN conjunct1] _ _
      sh [THEN conjunct2, THEN conjunct1] _ _ sh [THEN conjunct2, THEN conjunct2]] sh
  have first: "let r1 = move_book_to_shelf sample_db 3 1; r2 = move_book_to_shelf (snd r1) 3 2
    in fst r1 \<and> fst r2
     \<and> shelf_count sample_db 1 = Some 1 \<and> shelf_count (snd r1) 1 = Some 2
     \<and> shelf_count (snd r2) 1 = Some 1
     \<and> shelf_count sample_db 2 = Some 0 \<and> shelf_count (snd r2) 2 = Some 1
     \<and> shelf_count (snd r2) 3 = Some 0"
    by (simp add: Let_def shelf_count_def)
  from dec w1 [THEN conjunct2, THEN conjunct1, rule_format, of
      "\<lparr>book_id = 1, book_type = Physical, book_shelf_id = Some 1, status = Available\<rparr>" 1
      "\<lparr>book_id = 1, book_type = Physical, book_shelf_id = Some 3, status = Available\<rparr>" 3]
  have second: "update_shelf_count_on_book_change sample_db
        (BookUpdate \<lparr>book_id = 1, book_type = Physical, book_shelf_id = Some 1, status = Available\<rparr>
           \<lparr>book_id = 1, book_type = Physical, book_shelf_id = Some 3, status = Available\<rparr>) =
       Inl CapacityExceeded"
    by auto
  from no w1 [THEN conjunct2, THEN conjunct2, rule_format, of 3]
  have third: "move_book_to_shelf sample_db 1 3 = (False, sample_db)"
    by (cases "move_book_to_shelf sample_db 1 3") auto
  from first second third show ?thesis
    by simp
qed

section \<open>The keys of the loan table\<close>

text \<open>
  The loan trigger writes book rows only, and a row update of \<^verbatim>\<open>loans\<close> that is
  accepted has passed the checks and the unique index; so the primary key and the index
  survive it.
\<close>

lemma books_status_if_keeps:
  assumes "books_status_if c bid s d = Inr d'"
  shows "loans d' = loans d \<and> shelves d' = shelves d \<and> students d' = students d"
  using books_status_if_Inr [OF assms] by auto

lemma loan_trigger_keeps:
  assumes "update_book_status_on_loan_change d ev = Inr d'"
  shows "loans d' = loans d \<and> shelves d' = shelves d \<and> students d' = students d"
proof (cases ev)
  case (LoanInsert new)
  with assms show ?thesis by (auto dest: books_status_if_keeps)
next
  case (LoanUpdate old new)
  with assms obtain d1 d2 where
    "books_status_if (loan_status old \<noteq> Returned \<and> loan_status new = Returned)
       (loan_book_id new) Available d = Inr d1"
    "books_status_if (loan_status old = Returned \<and> is_open new) (loan_book_id new) Loaned d1 = Inr d2"
    "books_status_if (loan_status old \<noteq> LoanLost \<and> loan_status new = LoanLost)
       (loan_book_id new) BookLost d2 = Inr d'"
    by (auto simp: ebind_eq_Inr)
  then show ?thesis
    by (auto dest!: books_status_if_keeps)
next
  case (LoanDelete old)
  with assms show ?thesis by (auto dest: books_status_if_keeps)
qed

lemma update_loan_row_Inr:
  assumes "update_loan_row today d old new = Inr d'"
  shows "loans d' = replace_loan new (loans d)
       \<and> unique_active_book (filter (\<lambda>l. loan_id l \<noteq> loan_id old) (loans d)) new = Inr ()
       \<and> list_all snd (loan_checks today new)"
proof -
  from assms obtain d1 where
    c: "check_all (loan_checks today new) = Inr ()"
    and u: "unique_active_book (filter (\<lambda>l. loan_id l \<noteq> loan_id old) (loans d)) new = Inr ()"
    and t: "update_book_status_on_loan_change (d\<lparr>loans := replace_loan new (loans d)\<rparr>)
              (LoanUpdate old new) = Inr d'"
    by (auto simp: update_loan_row_def ebind_eq_Inr simp del: update_book_status_on_loan_change.simps)
  from loan_trigger_keeps [OF t] c u show ?thesis
    by (simp add: check_all_Inr)
qed

lemma replace_loan_ids:
  "map loan_id (replace_loan new ls) = map loan_id ls"
  by (induction ls) (auto simp: replace_loan_def)

lemma replace_loan_absent:
  "loan_id new \<notin> loan_id ` set ls \<Longrightarrow> replace_loan new ls = ls"
  by (induction ls) (auto simp: replace_loan_def)

lemma replace_loan_set:
  "set (replace_loan new ls) \<subseteq> insert new (set ls)"
  by (auto simp: replace_loan_def)

lemma replace_keeps_keyed:
  assumes "loans_keyed ls"
    and "unique_active_book (filter (\<lambda>l. loan_id l \<noteq> loan_id new) ls) new = Inr ()"
  shows "loans_keyed (replace_loan new ls)"
proof -
  from assms(2) have u: "\<And>l. is_open new \<Longrightarrow> l \<in> set ls \<Longrightarrow> loan_id l \<noteq> loan_id new
      \<Longrightarrow> is_open l \<Longrightarrow> loan_book_id l \<noteq> loan_book_id new"
    by (auto simp: unique_active_book_def list_ex_iff split: if_splits)
  from assms(1) have "distinct (map loan_id ls)" "distinct (map loan_book_id (filter is_open ls))"
    by (simp_all add: loans_keyed_def)
  then have "distinct (map loan_book_id (filter is_open (replace_loan new ls)))"
    using u
  proof (induction ls)
    case Nil
    then show ?case by (simp add: replace_loan_def)
  next
    case (Cons l ls)
    from Cons.prems have ih: "distinct (map loan_book_id (filter is_open (replace_loan new ls)))"
      by (intro Cons.IH) (auto split: if_splits)
    show ?case
    proof (cases "loan_id l = loan_id new")
      case True
      with Cons.prems(1) have "loan_id new \<notin> loan_id ` set ls" by auto
      then have same: "replace_loan new ls = ls" by (rule replace_loan_absent)
      have "loan_book_id new \<notin> loan_book_id ` set (filter is_open ls)" if o: "is_open new"
      proof
        assume "loan_book_id new \<in> loan_book_id ` set (filter is_open ls)"
        then obtain m where m: "m \<in> set ls" "is_open m" "loan_book_id m = loan_book_id new"
          by auto
        from m(1) have "loan_id m \<in> loan_id ` set ls" by (rule imageI)
        with \<open>loan_id new \<notin> loan_id ` set ls\<close> have "loan_id m \<noteq> loan_id new" by metis
        with Cons.prems(3) [of m] o m show False by simp
      qed
      with True Cons.prems(2) same show ?thesis
        by (auto simp: replace_loan_def split: if_splits)
    next
      case False
      have "loan_book_id l \<notin> loan_book_id ` set (filter is_open (replace_loan new ls))"
        if o: "is_open l"
      proof
        assume "loan_book_id l \<in> loan_book_id ` set (filter is_open (replace_loan new ls))"
        then obtain m where m: "m \<in> set (replace_loan new ls)" "is_open m"
          "loan_book_id m = loan_book_id l" by auto
        from m(1) replace_loan_set [of new ls] have "m = new \<or> m \<in> set ls" by auto
        then show False
        proof
          assume "m = new"
          with m Cons.prems(3) [of l] False o show False by auto
        next
          assume "m \<in> set ls"
          with m(2) have "m \<in> set (filter is_open ls)" by simp
          then have "loan_book_id m \<in> loan_book_id ` set (filter is_open ls)" by (rule imageI)
          with m(3) have "loan_book_id l \<in> loan_book_id ` set (filter is_open ls)" by simp
          with o Cons.prems(2) show False by simp
        qed
      qed
      with False ih show ?thesis
        by (auto simp: replace_loan_def)
    qed
  qed
  with \<open>distinct (map loan_id ls)\<close> show ?thesis
    by (simp add: loans_keyed_def replace_loan_ids)
qed

lemma update_loan_row_keyed:
  assumes "update_loan_row today d old new = Inr d'" "loans_keyed (loans d)"
    "loan_id new = loan_id old"
  shows "loans_keyed (loans d')"
  using update_loan_row_Inr [OF assms(1)] assms(2,3) replace_keeps_keyed [of "loans d" new]
  by simp

section \<open>The overdue sweep\<close>

lemma keyed_same_book:
  assumes "loans_keyed ls" "l \<in> set ls" "m \<in> set ls" "is_open l" "is_open m"
    "loan_book_id l = loan_book_id m"
  shows "l = m"
proof -
  from assms(1) have "inj_on loan_book_id (set (filter is_open ls))"
    by (simp add: loans_keyed_def distinct_map)
  moreover from assms have "l \<in> set (filter is_open ls)" "m \<in> set (filter is_open ls)"
    by simp_all
  ultimately show ?thesis
    using assms(6) by (metis inj_onD)
qed

lemma keyed_same_id:
  assumes "loans_keyed ls" "l \<in> set ls" "m \<in> set ls" "loan_id l = loan_id m"
  shows "l = m"
proof -
  from assms(1) have "inj_on loan_id (set ls)"
    by (simp add: loans_keyed_def distinct_map)
  then show ?thesis
    using assms(4,2,3) by (metis inj_onD)
qed

lemma overdue_checks:
  "list_all snd (loan_checks today l) \<Longrightarrow>
     list_all snd (loan_checks today (l\<lparr>loan_status := Overdue\<rparr>))"
  by (auto simp: loan_checks_def split: option.splits)

lemma sweep_row:
  assumes k: "loans_keyed (loans d)" and old: "old \<in> set (loans d)" "is_past_due today old"
    and c: "list_all snd (loan_checks today old)"
  shows "update_loan_row today d old (old\<lparr>loan_status := Overdue\<rparr>) =
     Inr (d\<lparr>loans := replace_loan (old\<lparr>loan_status := Overdue\<rparr>) (loans d)\<rparr>)"
proof -
  let ?new = "old\<lparr>loan_status := Overdue\<rparr>"
  from old(2) have o: "is_open old" "loan_status old = Active"
    by (simp_all add: is_past_due_def is_open_def)
  have "\<not> list_ex (\<lambda>l. is_open l \<and> loan_book_id l = loan_book_id ?new)
          (filter (\<lambda>l. loan_id l \<noteq> loan_id old) (loans d))"
  proof
    assume "list_ex (\<lambda>l. is_open l \<and> loan_book_id l = loan_book_id ?new)
          (filter (\<lambda>l. loan_id l \<noteq> loan_id old) (loans d))"
    then obtain m where m: "m \<in> set (loans d)" "loan_id m \<noteq> loan_id old" "is_open m"
      "loan_book_id m = loan_book_id old"
      by (auto simp: list_ex_iff)
    from keyed_same_book [OF k m(1) old(1) m(3) o(1) m(4)] m(2) show False by simp
  qed
  then have u: "unique_active_book (filter (\<lambda>l. loan_id l \<noteq> loan_id old) (loans d)) ?new = Inr ()"
    by (simp add: unique_active_book_def)
  from overdue_checks [OF c] have "check_all (loan_checks today ?new) = Inr ()"
    by (simp add: check_all_Inr)
  with u o show ?thesis
    by (simp add: update_loan_row_def books_status_if_def is_open_def)
qed

lemma replace_loan_keeps:
  "loan_id r \<noteq> loan_id new \<Longrightarrow> r \<in> set ls \<Longrightarrow> r \<in> set (replace_loan new ls)"
  by (auto simp: replace_loan_def intro!: image_eqI [of _ _ r])

lemma sweep_rows:
  assumes "loans_keyed (loans d)"
    and "\<forall>old \<in> set rows. old \<in> set (loans d) \<and> is_past_due today old
           \<and> list_all snd (loan_checks today old)"
    and "distinct (map loan_id rows)"
  shows "update_loan_rows today (\<lambda>l. l\<lparr>loan_status := Overdue\<rparr>) rows d =
     Inr (d\<lparr>loans := map (\<lambda>l. if loan_id l \<in> loan_id ` set rows
                              then l\<lparr>loan_status := Overdue\<rparr> else l) (loans d)\<rparr>,
          length rows)"
  using assms
proof (induction rows arbitrary: d)
  case Nil
  then show ?case by simp
next
  case (Cons old rest)
  let ?f = "\<lambda>l. l\<lparr>loan_status := Overdue\<rparr>"
  let ?d1 = "d\<lparr>loans := replace_loan (?f old) (loans d)\<rparr>"
  from Cons.prems have old: "old \<in> set (loans d)" "is_past_due today old"
      "list_all snd (loan_checks today old)"
    by simp_all
  have row: "update_loan_row today d old (?f old) = Inr ?d1"
    using sweep_row [OF Cons.prems(1) old] .
  from update_loan_row_keyed [OF row Cons.prems(1)] have k1: "loans_keyed (loans ?d1)"
    by simp
  have rest: "\<forall>r \<in> set rest. r \<in> set (loans ?d1) \<and> is_past_due today r
           \<and> list_all snd (loan_checks today r)"
  proof
    fix r assume r: "r \<in> set rest"
    then have "loan_id r \<in> loan_id ` set rest" by (rule imageI)
    moreover from Cons.prems(3) have "loan_id old \<notin> loan_id ` set rest" by simp
    ultimately have "loan_id r \<noteq> loan_id old" by metis
    then have "loan_id r \<noteq> loan_id (?f old)" by simp
    with r Cons.prems(2) show "r \<in> set (loans ?d1) \<and> is_past_due today r
           \<and> list_all snd (loan_checks today r)"
      by (simp add: replace_loan_keeps)
  qed
  from Cons.prems(3) have dr: "distinct (map loan_id rest)" by simp
  note ih = Cons.IH [OF k1 rest dr]
  have "map (\<lambda>l. if loan_id l \<in> loan_id ` set rest then ?f l else l)
          (replace_loan (?f old) (loans d)) =
        map (\<lambda>l. if loan_id l \<in> loan_id ` set (old # rest) then ?f l else l) (loans d)"
    unfolding replace_loan_def map_map
  proof (rule map_cong [OF refl])
    fix l assume l: "l \<in> set (loans d)"
    show "((\<lambda>l. if loan_id l \<in> loan_id ` set rest then ?f l else l) \<circ>
           (\<lambda>l. if loan_id l = loan_id (?f old) then ?f old else l)) l =
          (if loan_id l \<in> loan_id ` set (old # rest) then ?f l else l)"
    proof (cases "loan_id l = loan_id old")
      case True
      from keyed_same_id [OF Cons.prems(1) l old(1) True] have "l = old" .
      moreover from Cons.prems(3) have "loan_id old \<notin> loan_id ` set rest" by auto
      ultimately show ?thesis by simp
    next
      case False
      then show ?thesis by simp
    qed
  qed
  with row ih show ?case
    by simp
qed

text \<open>
  Claim C6. On a loan table that satisfies its keys and checks, \<^verbatim>\<open>update_overdue_loans\<close>
  sets to \<^verbatim>\<open>overdue\<close> exactly the loans that are \<^verbatim>\<open>active\<close>, have no actual return
  date and an estimated return date before the as-of date, changes nothing else, and answers
  their number. A second run on the result, with the same date, changes nothing and
  answers 0.
\<close>

theorem sweep_overdue_idempotent:
  assumes "loans_keyed (loans d)" and "loans_checked today (loans d)"
  shows "update_overdue_loans today d =
           (length (filter (is_past_due today) (loans d)),
            d\<lparr>loans := map (\<lambda>l. if is_past_due today l then l\<lparr>loan_status := Overdue\<rparr> else l)
                           (loans d)\<rparr>)
       \<and> update_overdue_loans today (snd (update_overdue_loans today d)) =
           (0, snd (update_overdue_loans today d))"
proof -
  let ?rows = "filter (is_past_due today) (loans d)"
  let ?g = "\<lambda>l. if is_past_due today l then l\<lparr>loan_status := Overdue\<rparr> else l"
  from assms(2) have rows: "\<forall>old \<in> set ?rows. old \<in> set (loans d) \<and> is_past_due today old
           \<and> list_all snd (loan_checks today old)"
    by (auto simp: loans_checked_def list_all_iff)
  from assms(1) have dist: "distinct (map loan_id ?rows)"
    by (simp add: loans_keyed_def distinct_map_filter)
  have same: "map (\<lambda>l. if loan_id l \<in> loan_id ` set ?rows then l\<lparr>loan_status := Overdue\<rparr> else l)
      (loans d) = map ?g (loans d)"
  proof (rule map_cong [OF refl])
    fix l assume l: "l \<in> set (loans d)"
    have "(loan_id l \<in> loan_id ` set ?rows) = is_past_due today l"
    proof
      assume "loan_id l \<in> loan_id ` set ?rows"
      then obtain r where r: "r \<in> set (loans d)" "is_past_due today r" "loan_id l = loan_id r"
        by auto
      from keyed_same_id [OF assms(1) l r(1) r(3)] r(2) show "is_past_due today l" by simp
    next
      assume "is_past_due today l"
      with l have "l \<in> set ?rows" by simp
      then show "loan_id l \<in> loan_id ` set ?rows" by (rule imageI)
    qed
    then show "(if loan_id l \<in> loan_id ` set ?rows then l\<lparr>loan_status := Overdue\<rparr> else l) = ?g l"
      by simp
  qed
  have once: "update_overdue_loans today d = (length ?rows, d\<lparr>loans := map ?g (loans d)\<rparr>)"
    using sweep_rows [OF assms(1) rows dist] same
    by (simp add: update_overdue_loans_def update_overdue_loans_sql_def update_loans_where_def)
  have none: "filter (is_past_due today) (map ?g (loans d)) = []"
    by (auto simp: filter_empty_conv is_past_due_def)
  then have "update_overdue_loans today (d\<lparr>loans := map ?g (loans d)\<rparr>) =
      (0, d\<lparr>loans := map ?g (loans d)\<rparr>)"
    by (simp add: update_overdue_loans_def update_overdue_loans_sql_def update_loans_where_def)
  with once show ?thesis by simp
qed

text \<open>
  On day 110, of the two active loans of the database with the full shelf, the one due on
  day 107 becomes overdue and the one due on day 114 stays.
\<close>

theorem sweep_overdue_idempotent_witness:
  "loans_keyed (loans full_shelf_db) \<and> loans_checked 110 (loans full_shelf_db)
   \<and> update_overdue_loans 110 full_shelf_db =
       (1, full_shelf_db\<lparr>loans := [sample_loan\<lparr>loan_status := Overdue\<rparr>, full_shelf_loan]\<rparr>)
   \<and> update_overdue_loans 110 (snd (update_overdue_loans 110 full_shelf_db)) =
       (0, full_shelf_db\<lparr>loans := [sample_loan\<lparr>loan_status := Overdue\<rparr>, full_shelf_loan]\<rparr>)"
proof -
  have k: "loans_keyed (loans full_shelf_db)"
    by code_simp
  have c: "loans_checked 110 (loans full_shelf_db)"
    by code_simp
  have p: "is_past_due 110 sample_loan \<and> \<not> is_past_due 110 full_shelf_loan"
    by code_simp
  note sweep = sweep_overdue_idempotent [OF k c]
  from sweep [THEN conjunct1] p
  have once: "update_overdue_loans 110 full_shelf_db =
       (1, full_shelf_db\<lparr>loans := [sample_loan\<lparr>loan_status := Overdue\<rparr>, full_shelf_loan]\<rparr>)"
    by (simp add: full_shelf_db_def)
  from sweep [THEN conjunct2] once
  have twice: "update_overdue_loans 110 (snd (update_overdue_loans 110 full_shelf_db)) =
       (0, full_shelf_db\<lparr>loans := [sample_loan\<lparr>loan_status := Overdue\<rparr>, full_shelf_loan]\<rparr>)"
    by simp
  from k c once twice show ?thesis
    by simp
qed

section \<open>One open loan per book\<close>

text \<open>
  Statements on \<^verbatim>\<open>books\<close> and \<^verbatim>\<open>shelves\<close> leave the loans alone, apart from the
  cascade of a deleted book, which removes rows; statements on \<^verbatim>\<open>loans\<close> pass the
  primary key and the unique index. So every modelled call keeps both.
\<close>

lemma shelf_count_keeps_loans:
  "update_shelf_book_count d sid n = Inr d' \<Longrightarrow> loans d' = loans d"
  by (auto simp: update_shelf_book_count_def Let_def split: option.splits if_splits)

lemma adjust_if_keeps_loans:
  "adjust_if c sid n d = Inr d' \<Longrightarrow> loans d' = loans d"
  by (auto simp: adjust_if_def split: option.splits if_splits dest: shelf_count_keeps_loans)

lemma book_trigger_keeps_loans:
  assumes "update_shelf_count_on_book_change d ev = Inr d'"
  shows "loans d' = loans d"
proof (cases ev)
  case (BookInsert new)
  with assms show ?thesis by (auto dest: adjust_if_keeps_loans)
next
  case (BookUpdate old new)
  with assms obtain d1 where
    a: "(if book_shelf_id old \<noteq> book_shelf_id new \<and> book_type new = Physical then
              ebind (adjust_if True (book_shelf_id old) (- 1) d)
                (adjust_if True (book_shelf_id new) 1)
            else Inr d) = Inr d1"
    and b: "(if book_type old \<noteq> book_type new then
                ebind (adjust_if (book_type old = Physical) (book_shelf_id old) (- 1) d1)
                  (adjust_if (book_type new = Physical) (book_shelf_id new) 1)
              else Inr d1) = Inr d'"
    by (auto simp: ebind_eq_Inr)
  from a have "loans d1 = loans d"
    by (auto simp: ebind_eq_Inr split: if_splits dest!: adjust_if_keeps_loans)
  moreover from b have "loans d' = loans d1"
    by (auto simp: ebind_eq_Inr split: if_splits dest!: adjust_if_keeps_loans)
  ultimately show ?thesis by simp
next
  case (BookDelete old)
  with assms show ?thesis by (auto dest: adjust_if_keeps_loans)
qed

lemma insert_book_keeps_loans:
  "insert_book d new = Inr d' \<Longrightarrow> loans d' = loans d"
  by (auto simp: insert_book_def ebind_eq_Inr simp del: update_shelf_count_on_book_change.simps
      split: if_splits dest!: book_trigger_keeps_loans)

lemma update_book_row_keeps_loans:
  "update_book_row d old new = Inr d' \<Longrightarrow> loans d' = loans d"
  by (auto simp: update_book_row_def ebind_eq_Inr simp del: update_shelf_count_on_book_change.simps
      dest!: book_trigger_keeps_loans)

lemma update_books_where_keeps_loans:
  "loans (snd (rows_result d (update_books_where d bid cond f))) = loans d"
  by (auto simp: update_books_where_def rows_result_def ebind_def
      split: option.splits sum.splits dest!: update_book_row_keeps_loans)

lemma filter_keeps_keyed:
  assumes "loans_keyed ls"
  shows "loans_keyed (filter P ls)"
proof -
  have "filter is_open (filter P ls) = filter P (filter is_open ls)"
    by (induction ls) auto
  moreover from assms have "distinct (map loan_book_id (filter P (filter is_open ls)))"
    using distinct_map_filter [of loan_book_id "filter is_open ls" P]
    by (simp add: loans_keyed_def)
  moreover from assms have "distinct (map loan_id (filter P ls))"
    using distinct_map_filter [of loan_id ls P]
    by (simp add: loans_keyed_def)
  ultimately show ?thesis
    unfolding loans_keyed_def by simp
qed

lemma delete_loan_rows_filter:
  "delete_loan_rows rows d = Inr d' \<Longrightarrow> \<exists>P. loans d' = filter P (loans d)"
proof (induction rows arbitrary: d)
  case Nil
  then have "loans d' = filter (\<lambda>_. True) (loans d)" by simp
  then show ?case by blast
next
  case (Cons old rest)
  from Cons.prems obtain d1 where d1: "delete_loan_row d old = Inr d1"
    and r: "delete_loan_rows rest d1 = Inr d'"
    by (auto simp: ebind_eq_Inr)
  from d1 have "loans d1 = filter (\<lambda>l. loan_id l \<noteq> loan_id old) (loans d)"
    by (auto simp: delete_loan_row_def simp del: update_book_status_on_loan_change.simps
        dest!: loan_trigger_keeps)
  moreover from Cons.IH [OF r] obtain P where "loans d' = filter P (loans d1)" by blast
  ultimately have "loans d' = filter (\<lambda>l. loan_id l \<noteq> loan_id old \<and> P l) (loans d)"
    by simp
  then show ?case by blast
qed

lemma delete_book_keyed:
  assumes "loans_keyed (loans d)"
  shows "loans_keyed (loans (snd (delete_book d bid)))"
proof (cases "delete_book_sql d bid")
  case (Inl e)
  with assms show ?thesis by (simp add: delete_book_def rows_result_def)
next
  case (Inr r)
  have "\<exists>P. loans (fst r) = filter P (loans d)"
  proof (cases "find_book d bid")
    case None
    with Inr have "loans (fst r) = filter (\<lambda>_. True) (loans d)"
      by (auto simp: delete_book_sql_def)
    then show ?thesis by blast
  next
    case (Some old)
    with Inr obtain d1 where
      c: "delete_loan_rows (filter (\<lambda>l. loan_book_id l = bid) (loans d))
            (d\<lparr>books := filter (\<lambda>b. book_id b \<noteq> bid) (books d)\<rparr>) = Inr d1"
      and t: "update_shelf_count_on_book_change d1 (BookDelete old) = Inr (fst r)"
      by (auto simp: delete_book_sql_def ebind_eq_Inr
          simp del: update_shelf_count_on_book_change.simps)
    from delete_loan_rows_filter [OF c] book_trigger_keeps_loans [OF t] show ?thesis
      by simp
  qed
  with assms Inr show ?thesis
    by (auto simp: delete_book_def rows_result_def filter_keeps_keyed split: prod.splits)
qed

lemma insert_loan_keyed:
  assumes "insert_loan today d lid new = Inr d'" "loans_keyed (loans d)"
  shows "loans_keyed (loans d')"
  using assms(1) by (simp add: insert_loan_raises)

lemma update_loan_by_id_keyed:
  assumes "loans_keyed (loans d)" "\<And>l. loan_id (f l) = loan_id l"
  shows "loans_keyed (loans (snd (rows_result d (update_loan_by_id today d lid cond f))))"
proof (cases "update_loan_by_id today d lid cond f")
  case (Inl e)
  with assms(1) show ?thesis by (simp add: rows_result_def)
next
  case (Inr r)
  have "loans_keyed (loans (fst r))"
  proof (cases "find_loan d lid")
    case None
    with Inr assms(1) show ?thesis by (auto simp: update_loan_by_id_def)
  next
    case (Some old)
    show ?thesis
    proof (cases "cond old")
      case True
      with Inr Some have "update_loan_row today d old (f old) = Inr (fst r)"
        by (auto simp: update_loan_by_id_def ebind_eq_Inr)
      from update_loan_row_keyed [OF this assms(1) assms(2)] show ?thesis .
    next
      case False
      with Inr Some assms(1) show ?thesis by (auto simp: update_loan_by_id_def)
    qed
  qed
  with Inr show ?thesis
    by (cases r) (simp add: rows_result_def)
qed

lemma update_loan_rows_keyed:
  assumes "update_loan_rows today f rows d = Inr r" "loans_keyed (loans d)"
    "\<And>l. loan_id (f l) = loan_id l"
  shows "loans_keyed (loans (fst r))"
  using assms(1,2)
proof (induction rows arbitrary: d r)
  case Nil
  then show ?case by auto
next
  case (Cons old rest)
  from Cons.prems(1) obtain d1 r1 where
    a: "update_loan_row today d old (f old) = Inr d1"
    and b: "update_loan_rows today f rest d1 = Inr r1"
    and r: "r = (fst r1, Suc (snd r1))"
    by (auto simp: ebind_eq_Inr)
  from update_loan_row_keyed [OF a Cons.prems(2) assms(3)] have "loans_keyed (loans d1)" .
  from Cons.IH [OF b this] r show ?case by simp
qed

lemma update_overdue_loans_keyed:
  assumes "loans_keyed (loans d)"
  shows "loans_keyed (loans (snd (update_overdue_loans today d)))"
proof (cases "update_overdue_loans_sql today d")
  case (Inl e)
  with assms show ?thesis by (simp add: update_overdue_loans_def)
next
  case (Inr r)
  then have "update_loan_rows today (\<lambda>l. l\<lparr>loan_status := Overdue\<rparr>)
      (filter (is_past_due today) (loans d)) d = Inr r"
    by (simp add: update_overdue_loans_sql_def update_loans_where_def)
  from update_loan_rows_keyed [OF this assms] Inr show ?thesis
    by (simp add: update_overdue_loans_def)
qed

lemma apply_operation_keyed:
  assumes "loans_keyed (loans d)"
  shows "loans_keyed (loans (apply_operation d op))"
proof (cases op)
  case (CreateBook b)
  with assms show ?thesis
    by (auto simp: create_book_def split: sum.splits dest: insert_book_keeps_loans)
next
  case (UpdateBook bid bd)
  with assms show ?thesis
    by (simp add: update_book_def update_books_where_keeps_loans)
next
  case (MoveBookToShelf bid sid)
  with assms show ?thesis
    by (simp add: move_book_to_shelf_def update_books_where_keeps_loans)
next
  case (UpdateBookStatus bid s)
  with assms show ?thesis
    by (simp add: update_book_status_def set_book_status_def update_books_where_keeps_loans)
next
  case (DeleteBook bid)
  with assms show ?thesis by (simp add: delete_book_keyed)
next
  case (UpdateBookCount sid n)
  with assms show ?thesis
    by (auto simp: update_book_count_def split: sum.splits dest: shelf_count_keeps_loans)
next
  case FixCapacityCounts
  with assms show ?thesis by (simp add: fix_capacity_counts_def Let_def)
next
  case (CreateLoan today lid bid sid ld est)
  with assms show ?thesis
    by (auto simp: create_loan_def Let_def split: sum.splits dest: insert_loan_keyed)
next
  case (RepositoryCreateLoan today lid bid sid ld est)
  with assms show ?thesis
    by (auto simp: repository_create_loan_def split: sum.splits dest: insert_loan_keyed)
next
  case (ReturnBook today lid rd)
  with assms show ?thesis
    by (simp add: return_book_def Let_def update_loan_by_id_keyed)
next
  case (RenewLoan today lid nd)
  with assms show ?thesis
    by (simp add: renew_loan_def update_loan_by_id_keyed)
next
  case (UpdateStatus today lid s)
  with assms show ?thesis
    by (simp add: update_status_def update_loan_by_id_keyed)
next
  case (UpdateOverdueLoans today)
  with assms show ?thesis by (simp add: update_overdue_loans_keyed)
next
  case (TimePasses now)
  with assms show ?thesis by simp
qed

lemma run_keyed:
  "loans_keyed (loans d) \<Longrightarrow> loans_keyed (loans (run d ops))"
  unfolding run_def
  by (induction ops arbitrary: d) (simp_all add: apply_operation_keyed)

text \<open>What the index means for the open loans of one book.\<close>

lemma keyed_one_open:
  assumes "loans_keyed (loans d)"
  shows "length (open_loans_of_book d bid) \<le> 1"
proof -
  have "distinct (map f xs) \<Longrightarrow> length (filter (\<lambda>x. f x = k) xs) \<le> 1" for f :: "loan \<Rightarrow> int" and xs k
  proof (induction xs)
    case Nil
    then show ?case by simp
  next
    case (Cons x xs)
    from Cons.prems have nx: "f x \<notin> f ` set xs" by simp
    have "filter (\<lambda>x. f x = k) xs = []" if "f x = k"
      unfolding filter_empty_conv
    proof (intro ballI notI)
      fix y assume "y \<in> set xs" "f y = k"
      with that have "f x \<in> f ` set xs" by (metis imageI)
      with nx show False ..
    qed
    with Cons show ?case by auto
  qed
  from this [of loan_book_id "filter is_open (loans d)" bid] assms
  have "length (filter (\<lambda>x. loan_book_id x = bid) (filter is_open (loans d))) \<le> 1"
    by (simp add: loans_keyed_def)
  then show ?thesis
    by (simp add: open_loans_of_book_def conj_commute)
qed

text \<open>
  Claim C2. From a database whose loan table satisfies its primary key and
  \<^verbatim>\<open>idx_loans_unique_active_book\<close>, every history of the modelled calls (successful
  or not) leads to a database that satisfies them too, so that every book has at most one
  loan that is active or overdue. While a book has such a loan, an \<^verbatim>\<open>INSERT\<close> of
  another loan for it is rejected, whatever the book's status says, and both
  \<^verbatim>\<open>create_loan\<close> methods answer \<^verbatim>\<open>None\<close> and leave the database unchanged.
  (The \<^verbatim>\<open>INSERT\<close> is rejected by \<^verbatim>\<open>validate_loan_creation\<close>, as every
  \<^verbatim>\<open>INSERT\<close> into \<^verbatim>\<open>loans\<close> is; the index is what keeps an update of a loan
  from opening a second one.)
\<close>

theorem single_open_loan_per_book:
  "(loans_keyed (loans d) \<longrightarrow>
      loans_keyed (loans (run d ops))
    \<and> (\<forall>bid. length (open_loans_of_book (run d ops) bid) \<le> 1))
   \<and> (\<forall>l \<in> set (loans d). is_open l \<longrightarrow>
        (\<forall>today lid sid ld est.
           (\<exists>e. insert_loan today d lid
                  \<lparr>new_book_id = loan_book_id l, new_student_id = sid, new_loan_date = ld,
                   new_estimated_return_date = est\<rparr> = Inl e)
         \<and> (\<forall>ldo. create_loan today d lid (loan_book_id l) sid ldo est = (None, d)
                \<and> repository_create_loan today d lid (loan_book_id l) sid ldo est = (None, d))))"
proof (intro conjI impI ballI allI)
  assume k: "loans_keyed (loans d)"
  from run_keyed [OF k] show "loans_keyed (loans (run d ops))" .
  fix bid
  from keyed_one_open [OF run_keyed [OF k]] show "length (open_loans_of_book (run d ops) bid) \<le> 1" .
next
  fix l today lid sid ld est
  assume l: "l \<in> set (loans d)" "is_open l"
  have no: "\<exists>e. insert_loan today d lid
      \<lparr>new_book_id = loan_book_id l, new_student_id = sid, new_loan_date = x,
       new_estimated_return_date = eo\<rparr> = Inl e" for x eo
    by (simp add: insert_loan_raises)
  from no show "\<exists>e. insert_loan today d lid
                  \<lparr>new_book_id = loan_book_id l, new_student_id = sid, new_loan_date = ld,
                   new_estimated_return_date = est\<rparr> = Inl e" .
  fix ldo
  from no [of "case ldo of None \<Rightarrow> today | Some x \<Rightarrow> x" est]
  show "create_loan today d lid (loan_book_id l) sid ldo est = (None, d)"
    by (auto simp: create_loan_def Let_def)
  from no [of "case ldo of None \<Rightarrow> today | Some x \<Rightarrow> x"
      "Some (case est of None \<Rightarrow> (case ldo of None \<Rightarrow> today | Some x \<Rightarrow> x) + 14 | Some e \<Rightarrow> e)"]
  show "repository_create_loan today d lid (loan_book_id l) sid ldo est = (None, d)"
    by (auto simp: repository_create_loan_def repository_loan_params_def Let_def)
qed

text \<open>
  On the lent sample database: book 2, which is lent, is asked for again, is marked
  available by hand and asked for once more, and on day 110 its loan becomes overdue. The
  loan table has held the one open loan of book 2 all along. A returned loan of a book that
  is lent again cannot be reopened: the index refuses the update.
\<close>

theorem single_open_loan_per_book_witness:
  "loans_keyed (loans lent_db)
   \<and> loans (run lent_db [CreateLoan 101 2 2 1 None None, UpdateBookStatus 2 Available,
                         RepositoryCreateLoan 101 2 2 1 None None, TimePasses 9,
                         UpdateOverdueLoans 110]) = [sample_loan\<lparr>loan_status := Overdue\<rparr>]
   \<and> length (open_loans_of_book
               (run lent_db [CreateLoan 101 2 2 1 None None, UpdateBookStatus 2 Available,
                             RepositoryCreateLoan 101 2 2 1 None None, TimePasses 9,
                             UpdateOverdueLoans 110]) 2) = 1
   \<and> sample_loan \<in> set (loans lent_db) \<and> is_open sample_loan
   \<and> create_loan 101 lent_db 2 2 1 None None = (None, lent_db)
   \<and> repository_create_loan 101 (snd (update_book_status lent_db 2 Available)) 2 2 1 None None =
       (None, snd (update_book_status lent_db 2 Available))
   \<and> loans_keyed (loans (lent_db\<lparr>loans :=
        [sample_loan\<lparr>loan_id := 0, loan_status := Returned, actual_return_date := Some 100\<rparr>,
         sample_loan]\<rparr>))
   \<and> update_status 101 (lent_db\<lparr>loans :=
        [sample_loan\<lparr>loan_id := 0, loan_status := Returned, actual_return_date := Some 100\<rparr>,
         sample_loan]\<rparr>) 0 Overdue =
       (False, lent_db\<lparr>loans :=
        [sample_loan\<lparr>loan_id := 0, loan_status := Returned, actual_return_date := Some 100\<rparr>,
         sample_loan]\<rparr>)"
proof -
  let ?ops = "[CreateLoan 101 2 2 1 None None, UpdateBookStatus 2 Available,
               RepositoryCreateLoan 101 2 2 1 None None, TimePasses 9, UpdateOverdueLoans 110]"
  let ?two = "lent_db\<lparr>loans :=
        [sample_loan\<lparr>loan_id := 0, loan_status := Returned, actual_return_date := Some 100\<rparr>,
         sample_loan]\<rparr>"
  have k: "loans_keyed (loans lent_db)"
    by code_simp
  have r: "loans (run lent_db ?ops) = [sample_loan\<lparr>loan_status := Overdue\<rparr>]"
    by code_simp
  have n: "length (open_loans_of_book (run lent_db ?ops) 2) = 1"
    by code_simp
  have l: "sample_loan \<in> set (loans lent_db)" "is_open sample_loan" "loan_book_id sample_loan = 2"
    by (simp_all add: lent_db_def sample_loan_def is_open_def)
  have m: "loans (snd (update_book_status lent_db 2 Available)) = [sample_loan]"
    by code_simp
  have k2: "loans_keyed (loans ?two)"
    by code_simp
  have u: "update_status 101 ?two 0 Overdue = (False, ?two)"
    by code_simp
  from single_open_loan_per_book [of lent_db ?ops, THEN conjunct1, rule_format, OF k]
  have "length (open_loans_of_book (run lent_db ?ops) 2) \<le> 1"
    by blast
  moreover note refused = single_open_loan_per_book [of lent_db, THEN conjunct2, rule_format,
      OF l(1,2), THEN conjunct2, rule_format, THEN conjunct1]
  from refused [of 101 2 1 None None] l(3)
  have "create_loan 101 lent_db 2 2 1 None None = (None, lent_db)"
    by simp
  moreover note again = single_open_loan_per_book [of "snd (update_book_status lent_db 2 Available)",
      THEN conjunct2, rule_format, of sample_loan, THEN conjunct2, rule_format, THEN conjunct2]
  from again [of 101 2 1 None None] l(2,3) m
  have "repository_create_loan 101 (snd (update_book_status lent_db 2 Available)) 2 2 1 None None =
       (None, snd (update_book_status lent_db 2 Available))"
    by simp
  ultimately show ?thesis
    using k r n l k2 u by simp
qed

end
